theory Spec2Isabelle
  imports Complex_Main "HOL-Library.AList"
begin

section \<open>Data model (be/src/services/vectorStore.ts)\<close>

text \<open>
  The model follows the credential-gated version of \<^verbatim>\<open>VectorStoreService\<close>
  (the first of the two versions in vectorStore.ts, the one whose methods take
  \<^verbatim>\<open>userApiKey\<close>). Dates are milliseconds since the epoch (\<^typ>\<open>int\<close>), strings are
  \<^typ>\<open>string\<close>, a JavaScript \<^verbatim>\<open>Map\<close> is an association list in insertion order
  (\<^verbatim>\<open>get\<close> is \<^const>\<open>map_of\<close>, \<^verbatim>\<open>set\<close> is \<^const>\<open>AList.update\<close>, \<^verbatim>\<open>delete\<close> is
  \<^const>\<open>AList.delete\<close>), similarity scores are real numbers.
\<close>

datatype role = User | Assistant

record ChatMessage =
  m_id :: string
  m_role :: role
  m_content :: string
  m_timestamp :: int
  m_userId :: string

record ConversationSession =
  sessionId :: string
  s_userId :: string
  messages :: "ChatMessage list"
  lastActivity :: int
  createdAt :: int

text \<open>
  The metadata of a LangChain \<^verbatim>\<open>Document\<close> is a free-form object. The fields are the ones
  the repository writes: \<^verbatim>\<open>id, role, userId, timestamp\<close> for a chat message,
  \<^verbatim>\<open>fileName, fileType, chunkIndex, totalChunks, uploadedAt, userId, documentId, type\<close>
  for a document chunk, and \<^verbatim>\<open>id\<close> alone for the seed. A field that is absent
  (\<^verbatim>\<open>undefined\<close>) is \<^const>\<open>None\<close>.
\<close>

record metadata =
  md_id :: "string option"
  md_role :: "role option"
  md_userId :: "string option"
  md_timestamp :: "int option"
  md_type :: "string option"
  md_fileName :: "string option"
  md_fileType :: "string option"
  md_chunkIndex :: "nat option"
  md_totalChunks :: "nat option"
  md_uploadedAt :: "int option"
  md_documentId :: "string option"

record Document =
  pageContent :: string
  metadata :: metadata

definition no_metadata :: metadata where
  "no_metadata = \<lparr>md_id = None, md_role = None, md_userId = None, md_timestamp = None,
     md_type = None, md_fileName = None, md_fileType = None, md_chunkIndex = None,
     md_totalChunks = None, md_uploadedAt = None, md_documentId = None\<rparr>"

text \<open>
  Calls into the external libraries (HNSWLib and the embedding provider behind it), in
  the order the service makes them. This trace is an observation of the service, not a
  field of the class.
\<close>

datatype external_call =
  FromTexts
  | AddDocuments "Document list"
  | SimilaritySearchWithScore string nat

text \<open>
  The fields of \<^verbatim>\<open>VectorStoreService\<close>. \<^verbatim>\<open>vectorStore\<close> is \<^verbatim>\<open>HNSWLib | null\<close>; an index
  is represented by the documents inserted into it, in insertion order. The flags
  \<^verbatim>\<open>isInitialized\<close>, \<^verbatim>\<open>isInitializing\<close> and \<^verbatim>\<open>initializationPromise\<close> are read and written
  only by \<^verbatim>\<open>initialize\<close> and \<^verbatim>\<open>getStats\<close>, which are not modelled.
\<close>

record state =
  vectorStore :: "Document list option"
  pendingMessages :: "ChatMessage list"
  conversationSessions :: "(string \<times> ConversationSession) list"
  userCurrentSessions :: "(string \<times> string) list"
  externalCalls :: "external_call list"

definition initial_state :: state where
  "initial_state = \<lparr>vectorStore = None, pendingMessages = [], conversationSessions = [],
     userCurrentSessions = [], externalCalls = []\<rparr>"

text \<open>
  What the surroundings answer during one call of the service: the value of
  \<^verbatim>\<open>uuidv4()\<close>, the clock (\<^verbatim>\<open>new Date()\<close>), whether \<^verbatim>\<open>HNSWLib.fromTexts\<close> succeeds,
  whether \<^verbatim>\<open>addDocuments\<close> succeeds on given documents, and the answer of
  \<^verbatim>\<open>similaritySearchWithScore\<close> on given index contents, query and \<^verbatim>\<open>k\<close>
  (\<^const>\<open>None\<close> when it throws).
\<close>

record env =
  uuidv4 :: string
  now :: int
  fromTexts_ok :: bool
  addDocuments_ok :: "Document list \<Rightarrow> bool"
  similaritySearchWithScore :: "Document list \<Rightarrow> string \<Rightarrow> nat \<Rightarrow> (Document \<times> real) list option"

datatype error = ApiKeyRequired | ProviderError | TypeError

definition MAX_RECENT_MESSAGES :: nat where
  "MAX_RECENT_MESSAGES = 15"

definition MAX_SESSION_AGE_HOURS :: real where
  "MAX_SESSION_AGE_HOURS = 48"

text \<open>
  \<^verbatim>\<open>xs.slice(-n)\<close> for a non-negative integer \<^verbatim>\<open>n\<close>: the last \<^verbatim>\<open>n\<close> elements, and the
  whole array when \<^verbatim>\<open>n\<close> is 0 (\<^verbatim>\<open>-0\<close> is \<^verbatim>\<open>0\<close>).
\<close>

definition slice_last :: "nat \<Rightarrow> 'a list \<Rightarrow> 'a list" where
  "slice_last n xs = (if n = 0 then xs else drop (length xs - n) xs)"

section \<open>Session store\<close>

text \<open>
  \<^verbatim>\<open>getCurrentSession\<close> returns a reference to the session object held by
  \<^verbatim>\<open>conversationSessions\<close>; the model returns the key under which the object is stored
  together with its value, so that the caller's mutation can be written back there.
  An empty session id is falsy in \<^verbatim>\<open>sessionId ? ... : undefined\<close>.
\<close>

definition getCurrentSession ::
  "env \<Rightarrow> string \<Rightarrow> state \<Rightarrow> (string \<times> ConversationSession) \<times> state" where
  "getCurrentSession e userId st =
     (let sid = map_of (userCurrentSessions st) userId;
          session = (case sid of None \<Rightarrow> None
                     | Some i \<Rightarrow> if i = [] then None
                                else map_option (Pair i) (map_of (conversationSessions st) i))
      in case session of
           Some ks \<Rightarrow> (ks, st)
         | None \<Rightarrow>
             (let new = \<lparr>sessionId = uuidv4 e, s_userId = userId, messages = [],
                         lastActivity = now e, createdAt = now e\<rparr>
              in ((uuidv4 e, new),
                  st\<lparr>conversationSessions := AList.update (uuidv4 e) new (conversationSessions st),
                     userCurrentSessions := AList.update userId (uuidv4 e) (userCurrentSessions st)\<rparr>)))"

definition updateSessionActivity :: "env \<Rightarrow> ConversationSession \<Rightarrow> ConversationSession" where
  "updateSessionActivity e session = session\<lparr>lastActivity := now e\<rparr>"

text \<open>
  The first statements of \<^verbatim>\<open>addChatMessage\<close> and of \<^verbatim>\<open>addChatMessageSync\<close> (the same
  text in both): push the message on the current session, update its activity, keep the
  last \<^const>\<open>MAX_RECENT_MESSAGES\<close> messages.
\<close>

definition pushMessage :: "env \<Rightarrow> ChatMessage \<Rightarrow> ConversationSession \<Rightarrow> ConversationSession" where
  "pushMessage e message session =
     (let session1 = session\<lparr>messages := messages session @ [message]\<rparr>;
          session2 = updateSessionActivity e session1
      in if length (messages session2) > MAX_RECENT_MESSAGES
         then session2\<lparr>messages := slice_last MAX_RECENT_MESSAGES (messages session2)\<rparr>
         else session2)"

definition appendToSession :: "env \<Rightarrow> ChatMessage \<Rightarrow> state \<Rightarrow> state" where
  "appendToSession e message st =
     (let ((key, session), st1) = getCurrentSession e (m_userId message) st
      in st1\<lparr>conversationSessions :=
               AList.update key (pushMessage e message session) (conversationSessions st1)\<rparr>)"

definition getRecentMessages ::
  "env \<Rightarrow> string \<Rightarrow> nat option \<Rightarrow> state \<Rightarrow> ChatMessage list \<times> state" where
  "getRecentMessages e userId limit st =
     (let ((key, session), st1) = getCurrentSession e userId st;
          messageLimit = (case limit of None \<Rightarrow> MAX_RECENT_MESSAGES
                          | Some l \<Rightarrow> if l = 0 then MAX_RECENT_MESSAGES else l)
      in (slice_last messageLimit (messages session), st1))"

definition startNewConversation :: "env \<Rightarrow> string \<Rightarrow> state \<Rightarrow> string \<times> state" where
  "startNewConversation e userId st =
     (let st1 = st\<lparr>userCurrentSessions := AList.delete userId (userCurrentSessions st)\<rparr>;
          ((key, session), st2) = getCurrentSession e userId st1
      in (sessionId session, st2))"

definition getSessionInfo :: "string \<Rightarrow> state \<Rightarrow> (string \<times> nat \<times> int) option" where
  "getSessionInfo userId st =
     (case map_of (userCurrentSessions st) userId of
        None \<Rightarrow> None
      | Some sid \<Rightarrow>
          if sid = [] then None
          else (case map_of (conversationSessions st) sid of
                  None \<Rightarrow> None
                | Some session \<Rightarrow>
                    Some (sessionId session, length (messages session), lastActivity session)))"

text \<open>
  \<^verbatim>\<open>cleanupExpiredSessions\<close>: the first loop collects the ids of the sessions idle for
  more than \<^const>\<open>MAX_SESSION_AGE_HOURS\<close>, the second removes each of them and the owner's
  pointer when it points to the removed session. The clock is the argument.
\<close>

definition hoursSinceLastActivity :: "int \<Rightarrow> ConversationSession \<Rightarrow> real" where
  "hoursSinceLastActivity t session = real_of_int (t - lastActivity session) / (1000 * 60 * 60)"

definition expiredSessions :: "int \<Rightarrow> state \<Rightarrow> string list" where
  "expiredSessions t st =
     map fst (filter (\<lambda>(sid, session). hoursSinceLastActivity t session > MAX_SESSION_AGE_HOURS)
                (conversationSessions st))"

definition removeSession :: "string \<Rightarrow> state \<Rightarrow> state" where
  "removeSession sid st =
     (case map_of (conversationSessions st) sid of
        None \<Rightarrow> st
      | Some session \<Rightarrow>
          (let st1 = st\<lparr>conversationSessions := AList.delete sid (conversationSessions st)\<rparr>
           in if map_of (userCurrentSessions st1) (s_userId session) = Some sid
              then st1\<lparr>userCurrentSessions := AList.delete (s_userId session) (userCurrentSessions st1)\<rparr>
              else st1))"

definition cleanupExpiredSessions :: "int \<Rightarrow> state \<Rightarrow> state" where
  "cleanupExpiredSessions t st = fold removeSession (expiredSessions t st) st"

section \<open>Embedding gateway and vector index\<close>

definition createEmbeddingsWithKey :: "string \<Rightarrow> error + unit" where
  "createEmbeddingsWithKey apiKey = (if apiKey = [] then Inl ApiKeyRequired else Inr ())"

text \<open>The seed that \<^verbatim>\<open>HNSWLib.fromTexts(['email assistant'], [{ id: 'init' }], ...)\<close> stores.\<close>

definition sentinelDocument :: Document where
  "sentinelDocument =
     \<lparr>pageContent = ''email assistant'', metadata = no_metadata\<lparr>md_id := Some ''init''\<rparr>\<rparr>"

definition role_string :: "role \<Rightarrow> string" where
  "role_string r = (case r of User \<Rightarrow> ''user'' | Assistant \<Rightarrow> ''assistant'')"

definition messageDocument :: "ChatMessage \<Rightarrow> Document" where
  "messageDocument message =
     \<lparr>pageContent = role_string (m_role message) @ '': '' @ m_content message,
      metadata = no_metadata\<lparr>md_id := Some (m_id message), md_role := Some (m_role message),
                   md_userId := Some (m_userId message),
                   md_timestamp := Some (m_timestamp message)\<rparr>\<rparr>"

text \<open>
  \<^verbatim>\<open>await this.vectorStore!.addDocuments(documents)\<close>: a \<^verbatim>\<open>TypeError\<close> on a null store,
  otherwise the provider is called and the documents are appended when it succeeds.
\<close>

definition storeAddDocuments :: "env \<Rightarrow> Document list \<Rightarrow> state \<Rightarrow> (error + unit) \<times> state" where
  "storeAddDocuments e docs st =
     (case vectorStore st of
        None \<Rightarrow> (Inl TypeError, st)
      | Some ds \<Rightarrow>
          (let st1 = st\<lparr>externalCalls := externalCalls st @ [AddDocuments docs]\<rparr>
           in if addDocuments_ok e docs
              then (Inr (), st1\<lparr>vectorStore := Some (ds @ docs)\<rparr>)
              else (Inl ProviderError, st1)))"

text \<open>
  \<^verbatim>\<open>_addMessageToStore\<close> from the construction of the document on (a key is present and
  the index exists); \<^verbatim>\<open>_initializeVectorStoreWithKey\<close> runs it on every queued message.
\<close>

definition addMessageToStore_ready :: "env \<Rightarrow> ChatMessage \<Rightarrow> state \<Rightarrow> (error + unit) \<times> state" where
  "addMessageToStore_ready e message st = storeAddDocuments e [messageDocument message] st"

text \<open>
  \<^verbatim>\<open>await Promise.all(messages.map(message => this._addMessageToStore(message, userApiKey)))\<close>:
  every insertion is started, whatever the others do, and the call rejects when one of
  them rejects. The state returned is the one after all of them have settled, the
  insertions taken in queue order.
\<close>

fun processAll :: "env \<Rightarrow> ChatMessage list \<Rightarrow> state \<Rightarrow> (error + unit) \<times> state" where
  "processAll e [] st = (Inr (), st)"
| "processAll e (message # rest) st =
     (let (r, st1) = addMessageToStore_ready e message st;
          (rs, st2) = processAll e rest st1
      in (case r of Inl err \<Rightarrow> Inl err | Inr _ \<Rightarrow> rs, st2))"

definition initializeVectorStoreWithKey :: "env \<Rightarrow> string \<Rightarrow> state \<Rightarrow> (error + unit) \<times> state" where
  "initializeVectorStoreWithKey e userApiKey st =
     (case createEmbeddingsWithKey userApiKey of
        Inl err \<Rightarrow> (Inl err, st)
      | Inr _ \<Rightarrow>
          (let st0 = st\<lparr>externalCalls := externalCalls st @ [FromTexts]\<rparr>
           in if \<not> fromTexts_ok e then (Inl ProviderError, st0)
              else
                (let st1 = st0\<lparr>vectorStore := Some [sentinelDocument]\<rparr>
                 in if length (pendingMessages st1) > 0
                    then (let queued = pendingMessages st1;
                              st2 = st1\<lparr>pendingMessages := []\<rparr>
                          in processAll e queued st2)
                    else (Inr (), st1))))"

definition addMessageToStore ::
  "env \<Rightarrow> ChatMessage \<Rightarrow> string option \<Rightarrow> state \<Rightarrow> (error + unit) \<times> state" where
  "addMessageToStore e message userApiKey st =
     (let queue = (Inr (), st\<lparr>pendingMessages := pendingMessages st @ [message]\<rparr>)
      in case userApiKey of
           None \<Rightarrow> queue
         | Some k \<Rightarrow>
             if k = [] then queue
             else if vectorStore st = None
             then (case initializeVectorStoreWithKey e k st of
                     (Inl err, st1) \<Rightarrow> (Inl err, st1)
                   | (Inr _, st1) \<Rightarrow> addMessageToStore_ready e message st1)
             else addMessageToStore_ready e message st)"

text \<open>
  \<^verbatim>\<open>addChatMessage\<close> never rejects: without a key it returns after the session update,
  with a key the insertion runs in the background and its error is logged. The state
  returned is the one after the background insertion has settled.
\<close>

definition addChatMessage :: "env \<Rightarrow> ChatMessage \<Rightarrow> string option \<Rightarrow> state \<Rightarrow> state" where
  "addChatMessage e message userApiKey st =
     (let st1 = appendToSession e message st
      in case userApiKey of
           None \<Rightarrow> st1
         | Some k \<Rightarrow> if k = [] then st1 else snd (addMessageToStore e message userApiKey st1))"

definition addChatMessageSync ::
  "env \<Rightarrow> ChatMessage \<Rightarrow> string option \<Rightarrow> state \<Rightarrow> (error + unit) \<times> state" where
  "addChatMessageSync e message userApiKey st =
     (let st1 = appendToSession e message st
      in case userApiKey of
           None \<Rightarrow> (Inr (), st1)
         | Some k \<Rightarrow> if k = [] then (Inr (), st1) else addMessageToStore e message userApiKey st1)"

definition addDocuments :: "env \<Rightarrow> Document list \<Rightarrow> string \<Rightarrow> state \<Rightarrow> (error + unit) \<times> state" where
  "addDocuments e documents userApiKey st =
     (if userApiKey = [] then (Inl ApiKeyRequired, st)
      else if vectorStore st = None
      then (case initializeVectorStoreWithKey e userApiKey st of
              (Inl err, st1) \<Rightarrow> (Inl err, st1)
            | (Inr _, st1) \<Rightarrow> storeAddDocuments e documents st1)
      else storeAddDocuments e documents st)"

section \<open>Search\<close>

text \<open>
  \<^verbatim>\<open>this.vectorStore!.similaritySearchWithScore(query, k)\<close> inside a \<^verbatim>\<open>try\<close>: \<^const>\<open>None\<close>
  when the store is null or the library throws (both reach the \<^verbatim>\<open>catch\<close>).
\<close>

definition storeSearch ::
  "env \<Rightarrow> string \<Rightarrow> nat \<Rightarrow> state \<Rightarrow> (Document \<times> real) list option \<times> state" where
  "storeSearch e query k st =
     (case vectorStore st of
        None \<Rightarrow> (None, st)
      | Some ds \<Rightarrow>
          (similaritySearchWithScore e ds query k,
           st\<lparr>externalCalls := externalCalls st @ [SimilaritySearchWithScore query k]\<rparr>))"

text \<open>
  White space as \<^verbatim>\<open>String.prototype.trim\<close> sees it, among the code points a \<^typ>\<open>char\<close>
  holds: tab, line feed, vertical tab, form feed, carriage return, space and the
  no-break space U+00A0.
\<close>

definition isWhiteSpace :: "char \<Rightarrow> bool" where
  "isWhiteSpace c = (c \<in> set [CHR 0x09, CHR 0x0A, CHR 0x0B, CHR 0x0C, CHR 0x0D, CHR 0x20, CHR 0xA0])"

definition trim :: "string \<Rightarrow> string" where
  "trim s = rev (dropWhile isWhiteSpace (rev (dropWhile isWhiteSpace s)))"

text \<open>\<^verbatim>\<open>!query || query.trim().length === 0\<close>\<close>

definition emptyQuery :: "string \<Rightarrow> bool" where
  "emptyQuery query = (query = [] \<or> length (trim query) = 0)"

definition historyFilter :: "string \<Rightarrow> Document \<times> real \<Rightarrow> bool" where
  "historyFilter userId = (\<lambda>(doc, score).
     md_userId (metadata doc) = Some userId \<and> score > 0.6 \<and> md_id (metadata doc) \<noteq> Some ''init'')"

definition searchRelevantHistory ::
  "env \<Rightarrow> string \<Rightarrow> string \<Rightarrow> string option \<Rightarrow> nat \<Rightarrow> state \<Rightarrow> (error + Document list) \<times> state" where
  "searchRelevantHistory e query userId userApiKey limit st =
     (case userApiKey of
        None \<Rightarrow> (Inr [], st)
      | Some k \<Rightarrow>
          if k = [] then (Inr [], st)
          else
            (let (init, st1) = (if vectorStore st = None then initializeVectorStoreWithKey e k st
                                else (Inr (), st))
             in case init of
                  Inl err \<Rightarrow> (Inr [], st1)
                | Inr _ \<Rightarrow>
                    if emptyQuery query then (Inr [], st1)
                    else (case storeSearch e query (limit * 2) st1 of
                            (None, st2) \<Rightarrow> (Inr [], st2)
                          | (Some results, st2) \<Rightarrow>
                              (Inr (take limit (map fst (filter (historyFilter userId) results))), st2))))"

definition listFilter :: "string \<Rightarrow> Document \<times> real \<Rightarrow> bool" where
  "listFilter userId = (\<lambda>(doc, score).
     md_userId (metadata doc) = Some userId \<and> md_type (metadata doc) = Some ''document_chunk'')"

definition documentFilter :: "string \<Rightarrow> Document \<times> real \<Rightarrow> bool" where
  "documentFilter userId = (\<lambda>(doc, score).
     md_userId (metadata doc) = Some userId \<and> md_type (metadata doc) = Some ''document_chunk''
     \<and> score > 0.6)"

definition searchRelevantDocuments ::
  "env \<Rightarrow> string \<Rightarrow> string \<Rightarrow> string option \<Rightarrow> nat \<Rightarrow> state \<Rightarrow> (error + Document list) \<times> state" where
  "searchRelevantDocuments e query userId userApiKey limit st =
     (case userApiKey of
        None \<Rightarrow> (Inr [], st)
      | Some k \<Rightarrow>
          if k = [] then (Inr [], st)
          else
            (let (init, st1) = (if vectorStore st = None then initializeVectorStoreWithKey e k st
                                else (Inr (), st))
             in case init of
                  Inl err \<Rightarrow> (Inr [], st1)
                | Inr _ \<Rightarrow>
                    if emptyQuery query
                    then (case storeSearch e ''document'' (limit * 5) st1 of
                            (None, st2) \<Rightarrow> (Inr [], st2)
                          | (Some results, st2) \<Rightarrow>
                              (Inr (take limit (map fst (filter (listFilter userId) results))), st2))
                    else (case storeSearch e query (limit * 2) st1 of
                            (None, st2) \<Rightarrow> (Inr [], st2)
                          | (Some results, st2) \<Rightarrow>
                              (Inr (take limit (map fst (filter (documentFilter userId) results))), st2))))"

text \<open>
  The state in which a credentialed search runs its similarity search: the one left by
  \<^verbatim>\<open>if (!this.vectorStore) { await this._initializeVectorStoreWithKey(userApiKey) }\<close>.
\<close>

definition afterInit :: "env \<Rightarrow> string \<Rightarrow> state \<Rightarrow> state" where
  "afterInit e k st =
     (if vectorStore st = None then snd (initializeVectorStoreWithKey e k st) else st)"

section \<open>Calls of the service, in sequence\<close>

datatype call =
  AddChatMessage ChatMessage "string option"
  | AddChatMessageSync ChatMessage "string option"
  | SearchRelevantHistory string string "string option" nat
  | SearchRelevantDocuments string string "string option" nat
  | AddDocumentsCall "Document list" string
  | GetRecentMessages string "nat option"
  | StartNewConversation string
  | CleanupExpiredSessions

text \<open>
  One call at a time: \<open>step\<close> runs a call to its end, the background insertion of a
  credentialed \<^verbatim>\<open>addChatMessage\<close> included, before the next call starts. The service
  writes \<^verbatim>\<open>conversationSessions\<close>, \<^verbatim>\<open>userCurrentSessions\<close> and \<^verbatim>\<open>pendingMessages\<close> between
  two \<^verbatim>\<open>await\<close>s only, so what \<open>run\<close> says of these three fields holds of
  overlapping calls too. It does not for \<^verbatim>\<open>vectorStore\<close> and for the order of the external
  calls: two calls that both find no index while one of them awaits each build one, and
  the later assignment replaces the earlier index.
\<close>

fun step :: "env \<times> call \<Rightarrow> state \<Rightarrow> state" where
  "step (e, AddChatMessage m k) st = addChatMessage e m k st"
| "step (e, AddChatMessageSync m k) st = snd (addChatMessageSync e m k st)"
| "step (e, SearchRelevantHistory q u k l) st = snd (searchRelevantHistory e q u k l st)"
| "step (e, SearchRelevantDocuments q u k l) st = snd (searchRelevantDocuments e q u k l st)"
| "step (e, AddDocumentsCall ds k) st = snd (addDocuments e ds k st)"
| "step (e, GetRecentMessages u l) st = snd (getRecentMessages e u l st)"
| "step (e, StartNewConversation u) st = snd (startNewConversation e u st)"
| "step (e, CleanupExpiredSessions) st = cleanupExpiredSessions (now e) st"

definition run :: "(env \<times> call) list \<Rightarrow> state \<Rightarrow> state" where
  "run cs st = fold step cs st"

text \<open>
  \<^verbatim>\<open>uuidv4()\<close> is taken to return an id that names no session yet: a trace is valid when
  the id offered at each step is not a key of \<^verbatim>\<open>conversationSessions\<close>.
\<close>

definition freshId :: "env \<Rightarrow> state \<Rightarrow> bool" where
  "freshId e st = (uuidv4 e \<notin> set (map fst (conversationSessions st)))"

fun validTrace :: "(env \<times> call) list \<Rightarrow> state \<Rightarrow> bool" where
  "validTrace [] st = True"
| "validTrace (c # cs) st = (freshId (fst c) st \<and> validTrace cs (step c st))"

section \<open>Context assembly (be/src/services/chatService.ts, be/src/routes/chat.ts)\<close>

record ChatRequest =
  rq_message :: string
  rq_userId :: string
  rq_userApiKey :: "string option"

record ChatResponse =
  r_id :: string
  r_response :: string
  r_timestamp :: int
  relevantContext :: "string list"

datatype chat_error = ChatProcessingFailed

text \<open>\<^verbatim>\<open>xs.join(sep)\<close>\<close>

fun join :: "string \<Rightarrow> string list \<Rightarrow> string" where
  "join sep [] = []"
| "join sep [x] = x"
| "join sep (x # y # ys) = x @ sep @ join sep (y # ys)"

definition recentContext :: "ChatMessage list \<Rightarrow> string list" where
  "recentContext recentMessages =
     map (\<lambda>msg. role_string (m_role msg) @ '': '' @ m_content msg) (slice_last 8 recentMessages)"

text \<open>\<^verbatim>\<open>recentIds.has(doc.metadata.id)\<close>: an absent id is in no set of message ids.\<close>

definition inRecentIds :: "ChatMessage list \<Rightarrow> Document \<Rightarrow> bool" where
  "inRecentIds recentMessages doc =
     (case md_id (metadata doc) of None \<Rightarrow> False | Some i \<Rightarrow> i \<in> set (map m_id recentMessages))"

definition semanticContext :: "ChatMessage list \<Rightarrow> Document list \<Rightarrow> string list" where
  "semanticContext recentMessages relevantHistory =
     take 4 (map pageContent (filter (\<lambda>doc. \<not> inRecentIds recentMessages doc) relevantHistory))"

definition documentContext :: "Document list \<Rightarrow> string list" where
  "documentContext relevantDocuments =
     take 3 (map (\<lambda>doc. ''Document: ''
                    @ (case md_fileName (metadata doc) of None \<Rightarrow> ''undefined'' | Some n \<Rightarrow> n)
                    @ [CHR 0x0A] @ ''Content: '' @ pageContent doc) relevantDocuments)"

definition contextSections :: "ChatMessage list \<Rightarrow> Document list \<Rightarrow> Document list \<Rightarrow> string list" where
  "contextSections recentMessages relevantHistory relevantDocuments =
     (if length (recentContext recentMessages) > 0
      then [''RECENT CONVERSATION:'' @ [CHR 0x0A] @ join [CHR 0x0A] (recentContext recentMessages)]
      else [])
     @ (if length (semanticContext recentMessages relevantHistory) > 0
        then [''RELEVANT HISTORY:'' @ [CHR 0x0A]
              @ join [CHR 0x0A, CHR 0x0A] (semanticContext recentMessages relevantHistory)]
        else [])
     @ (if length (documentContext relevantDocuments) > 0
        then [''DOCUMENTS:'' @ [CHR 0x0A] @ join [CHR 0x0A, CHR 0x0A] (documentContext relevantDocuments)]
        else [])"

text \<open>
  \<^verbatim>\<open>processChat\<close> as a function of what it awaits: the recent messages and the relevant
  history of \<^verbatim>\<open>getChatContext\<close>, the documents of \<^verbatim>\<open>searchDocuments\<close>, the answer of the
  language model (\<^const>\<open>None\<close> when the call throws) and the assistant message created
  from it. Every error is caught and thrown again as one error. The two
  \<^verbatim>\<open>addChatMessage\<close> calls it starts do not change its result.
\<close>

definition processChat ::
  "ChatRequest \<Rightarrow> ChatMessage list \<Rightarrow> Document list \<Rightarrow> Document list \<Rightarrow> string option
     \<Rightarrow> string \<Rightarrow> int \<Rightarrow> chat_error + ChatResponse" where
  "processChat request recentMessages relevantHistory relevantDocuments llm assistantId assistantTime =
     (case rq_userApiKey request of
        None \<Rightarrow> Inl ChatProcessingFailed
      | Some k \<Rightarrow>
          if k = [] then Inl ChatProcessingFailed
          else (let allContext = contextSections recentMessages relevantHistory relevantDocuments
                in case llm of
                     None \<Rightarrow> Inl ChatProcessingFailed
                   | Some responseText \<Rightarrow>
                       Inr \<lparr>r_id = assistantId, r_response = responseText,
                            r_timestamp = assistantTime, relevantContext = allContext\<rparr>))"

text \<open>The route: \<^verbatim>\<open>contextUsed: (response.relevantContext?.length ?? 0) > 0\<close>\<close>

definition contextUsed :: "ChatResponse \<Rightarrow> bool" where
  "contextUsed response = (length (relevantContext response) > 0)"

section \<open>Document ingestion (services/documentService.ts)\<close>

text \<open>
  \<^verbatim>\<open>processDocument\<close> from the split text on: the chunks built from
  \<^verbatim>\<open>textChunks.map((chunk, index) => ...)\<close>. The split itself is the library's
  \<^verbatim>\<open>RecursiveCharacterTextSplitter.splitText\<close>; its result is the argument \<open>textChunks\<close>,
  and \<open>ids\<close> gives the \<^verbatim>\<open>uuidv4()\<close> of each chunk.
\<close>

record DocumentChunk =
  c_id :: string
  c_content :: string
  c_metadata :: metadata

definition processDocument_chunks ::
  "(nat \<Rightarrow> string) \<Rightarrow> string \<Rightarrow> string \<Rightarrow> int \<Rightarrow> string \<Rightarrow> string list \<Rightarrow> DocumentChunk list" where
  "processDocument_chunks ids originalname mimetype uploadedAt userId textChunks =
     map (\<lambda>(index, chunk).
            \<lparr>c_id = ids index, c_content = chunk,
             c_metadata = no_metadata\<lparr>md_fileName := Some originalname,
                            md_fileType := Some mimetype, md_chunkIndex := Some index,
                            md_totalChunks := Some (length textChunks),
                            md_uploadedAt := Some uploadedAt, md_userId := Some userId\<rparr>\<rparr>)
         (enumerate 0 textChunks)"

section \<open>Invariants of the session maps\<close>

text \<open>
  Every stored session holds at most 15 messages; every current-session pointer names a
  stored session of the same user.
\<close>

definition sessionsBounded :: "state \<Rightarrow> bool" where
  "sessionsBounded st =
     list_all (\<lambda>sid. case map_of (conversationSessions st) sid of
                        None \<Rightarrow> True | Some s \<Rightarrow> length (messages s) \<le> 15)
       (map fst (conversationSessions st))"

definition pointersOwned :: "state \<Rightarrow> bool" where
  "pointersOwned st =
     list_all (\<lambda>u. case map_of (userCurrentSessions st) u of
                      None \<Rightarrow> True
                    | Some sid \<Rightarrow> (case map_of (conversationSessions st) sid of
                                    None \<Rightarrow> False | Some s \<Rightarrow> s_userId s = u))
       (map fst (userCurrentSessions st))"


section \<open>Example data\<close>

definition msgA :: ChatMessage where
  "msgA = \<lparr>m_id = ''m1'', m_role = User, m_content = ''hello'', m_timestamp = 1000,
            m_userId = ''alice''\<rparr>"

definition msgB :: ChatMessage where
  "msgB = \<lparr>m_id = ''m2'', m_role = Assistant, m_content = ''hi there'', m_timestamp = 2000,
            m_userId = ''bob''\<rparr>"

definition chunkA :: Document where
  "chunkA = \<lparr>pageContent = ''quarterly report'',
             metadata = no_metadata\<lparr>md_userId := Some ''alice'', md_type := Some ''document_chunk'',
                          md_fileName := Some ''report.txt'', md_chunkIndex := Some 0,
                          md_totalChunks := Some 1\<rparr>\<rparr>"

definition exampleResults :: "(Document \<times> real) list" where
  "exampleResults = [(sentinelDocument, 0.9), (messageDocument msgB, 0.95),
                     (messageDocument msgA, 0.8), (chunkA, 0.7)]"

definition exampleEnv :: env where
  "exampleEnv = \<lparr>uuidv4 = ''s1'', now = 1000, fromTexts_ok = True,
                  addDocuments_ok = (\<lambda>_. True),
                  similaritySearchWithScore = (\<lambda>ds q k. Some (take k exampleResults))\<rparr>"

definition failingEnv :: env where
  "failingEnv = \<lparr>uuidv4 = ''s2'', now = 2000, fromTexts_ok = False,
                  addDocuments_ok = (\<lambda>_. False),
                  similaritySearchWithScore = (\<lambda>ds q k. None)\<rparr>"

definition exampleStore :: state where
  "exampleStore = initial_state\<lparr>vectorStore := Some (map fst exampleResults)\<rparr>"


definition secondEnv :: env where
  "secondEnv = exampleEnv\<lparr>uuidv4 := ''s2'', now := 5000\<rparr>"

definition exampleTrace :: "(env \<times> call) list" where
  "exampleTrace = [(exampleEnv, AddChatMessage msgA None)]"


definition longTrace :: "(env \<times> call) list" where
  "longTrace = replicate 16 (exampleEnv, AddChatMessage msgA None)"

text \<open>
  The specification's reading of \<^verbatim>\<open>usedContext\<close>, in its own words: true iff step 2 (the
  semantic search over the chat history, without the ids of the Recent section) or step 3
  (the document search) produced at least one hit.
\<close>

definition usedContext_spec :: "ChatMessage list \<Rightarrow> Document list \<Rightarrow> Document list \<Rightarrow> bool" where
  "usedContext_spec recentMessages relevantHistory relevantDocuments =
     (length (semanticContext recentMessages relevantHistory) > 0
      \<or> length (documentContext relevantDocuments) > 0)"

fun isSimilaritySearch :: "external_call \<Rightarrow> bool" where
  "isSimilaritySearch (SimilaritySearchWithScore q k) = True"
| "isSimilaritySearch _ = False"

definition exampleRequest :: ChatRequest where
  "exampleRequest = \<lparr>rq_message = ''hello'', rq_userId = ''alice'', rq_userApiKey = Some ''sk-key''\<rparr>"

definition searchFailingEnv :: env where
  "searchFailingEnv = exampleEnv\<lparr>similaritySearchWithScore := (\<lambda>ds q k. None)\<rparr>"

definition hour :: int where
  "hour = 1000 * 60 * 60"

text \<open>
  Three sessions at the sweep: alice's current one, idle since time 0; bob's current
  one, active at 2 hours; and an older session of bob's, idle since time 0.
\<close>

definition sweepState :: state where
  "sweepState = initial_state\<lparr>conversationSessions :=
       [(''s1'', \<lparr>sessionId = ''s1'', s_userId = ''alice'', messages = [msgA],
                  lastActivity = 0, createdAt = 0\<rparr>),
        (''s0'', \<lparr>sessionId = ''s0'', s_userId = ''bob'', messages = [],
                  lastActivity = 0, createdAt = 0\<rparr>),
        (''s2'', \<lparr>sessionId = ''s2'', s_userId = ''bob'', messages = [msgB],
                  lastActivity = 2 * hour, createdAt = hour\<rparr>)],
     userCurrentSessions := [(''alice'', ''s1''), (''bob'', ''s2'')]\<rparr>"

section \<open>Lemmas\<close>

subsection \<open>What each operation leaves unchanged\<close>

lemma storeAddDocuments_frame:
  "conversationSessions (snd (storeAddDocuments e ds st)) = conversationSessions st"
  "userCurrentSessions (snd (storeAddDocuments e ds st)) = userCurrentSessions st"
  "pendingMessages (snd (storeAddDocuments e ds st)) = pendingMessages st"
  by (simp_all add: storeAddDocuments_def Let_def split: option.splits)

lemma processAll_frame:
  "conversationSessions (snd (processAll e ms st)) = conversationSessions st"
  "userCurrentSessions (snd (processAll e ms st)) = userCurrentSessions st"
  "pendingMessages (snd (processAll e ms st)) = pendingMessages st"
  by (induction ms arbitrary: st;
      simp add: addMessageToStore_ready_def split_beta Let_def storeAddDocuments_frame)+

lemma initializeVectorStoreWithKey_frame:
  "conversationSessions (snd (initializeVectorStoreWithKey e k st)) = conversationSessions st"
  "userCurrentSessions (snd (initializeVectorStoreWithKey e k st)) = userCurrentSessions st"
  by (simp_all add: initializeVectorStoreWithKey_def Let_def processAll_frame split: sum.splits)


lemma initializeVectorStoreWithKey_frameD:
  assumes "initializeVectorStoreWithKey e k st = (r, st')"
  shows "conversationSessions st' = conversationSessions st"
    and "userCurrentSessions st' = userCurrentSessions st"
  using initializeVectorStoreWithKey_frame[of e k st] assms by simp_all

lemma addMessageToStore_frame:
  "conversationSessions (snd (addMessageToStore e m k st)) = conversationSessions st"
  "userCurrentSessions (snd (addMessageToStore e m k st)) = userCurrentSessions st"
  by (simp_all add: addMessageToStore_def addMessageToStore_ready_def Let_def split_beta
      storeAddDocuments_frame initializeVectorStoreWithKey_frame split: option.split sum.split)

lemma addDocuments_frame:
  "conversationSessions (snd (addDocuments e ds k st)) = conversationSessions st"
  "userCurrentSessions (snd (addDocuments e ds k st)) = userCurrentSessions st"
  by (simp_all add: addDocuments_def split_beta
      storeAddDocuments_frame initializeVectorStoreWithKey_frame split: option.split sum.split)

lemma storeSearch_frame:
  "conversationSessions (snd (storeSearch e q n st)) = conversationSessions st"
  "userCurrentSessions (snd (storeSearch e q n st)) = userCurrentSessions st"
  "pendingMessages (snd (storeSearch e q n st)) = pendingMessages st"
  "vectorStore (snd (storeSearch e q n st)) = vectorStore st"
  by (simp_all add: storeSearch_def split: option.splits)

lemma storeSearch_frameD:
  assumes "storeSearch e q n st = (r, st')"
  shows "conversationSessions st' = conversationSessions st"
    and "userCurrentSessions st' = userCurrentSessions st"
    and "pendingMessages st' = pendingMessages st"
    and "vectorStore st' = vectorStore st"
  using storeSearch_frame[of e q n st] assms by simp_all

lemma searchRelevantHistory_frame:
  "conversationSessions (snd (searchRelevantHistory e q u k l st)) = conversationSessions st"
  "userCurrentSessions (snd (searchRelevantHistory e q u k l st)) = userCurrentSessions st"
  by (simp_all add: searchRelevantHistory_def Let_def split_beta storeSearch_frame
      initializeVectorStoreWithKey_frame split: option.split sum.split)

lemma searchRelevantDocuments_frame:
  "conversationSessions (snd (searchRelevantDocuments e q u k l st)) = conversationSessions st"
  "userCurrentSessions (snd (searchRelevantDocuments e q u k l st)) = userCurrentSessions st"
  by (simp_all add: searchRelevantDocuments_def Let_def split_beta storeSearch_frame
      initializeVectorStoreWithKey_frame split: option.split sum.split)

lemma getCurrentSession_frame:
  "vectorStore (snd (getCurrentSession e u st)) = vectorStore st"
  "pendingMessages (snd (getCurrentSession e u st)) = pendingMessages st"
  "externalCalls (snd (getCurrentSession e u st)) = externalCalls st"
  by (simp_all add: getCurrentSession_def Let_def split: option.splits)

lemma appendToSession_frame:
  "vectorStore (appendToSession e m st) = vectorStore st"
  "pendingMessages (appendToSession e m st) = pendingMessages st"
  "externalCalls (appendToSession e m st) = externalCalls st"
  using getCurrentSession_frame[of e "m_userId m" st]
  by (simp_all add: appendToSession_def Let_def split_beta)

subsection \<open>Sessions\<close>

lemma getCurrentSession_cases:
  obtains (existing) i s where
      "map_of (userCurrentSessions st) u = Some i" "i \<noteq> []"
      "map_of (conversationSessions st) i = Some s"
      "getCurrentSession e u st = ((i, s), st)"
  | (created)
      "getCurrentSession e u st =
         ((uuidv4 e, \<lparr>sessionId = uuidv4 e, s_userId = u, messages = [],
                      lastActivity = now e, createdAt = now e\<rparr>),
          st\<lparr>conversationSessions :=
                AList.update (uuidv4 e) \<lparr>sessionId = uuidv4 e, s_userId = u, messages = [],
                      lastActivity = now e, createdAt = now e\<rparr> (conversationSessions st),
             userCurrentSessions := AList.update u (uuidv4 e) (userCurrentSessions st)\<rparr>)"
proof (cases "case map_of (userCurrentSessions st) u of None \<Rightarrow> None
              | Some i \<Rightarrow> if i = [] then None
                         else map_option (Pair i) (map_of (conversationSessions st) i)")
  case None
  then show ?thesis
    by (intro created) (simp add: getCurrentSession_def Let_def)
next
  case (Some ks)
  then obtain i s where "map_of (userCurrentSessions st) u = Some i" "i \<noteq> []"
      "map_of (conversationSessions st) i = Some s" "ks = (i, s)"
    by (auto split: option.splits if_splits)
  moreover from Some have "getCurrentSession e u st = (ks, st)"
    by (simp add: getCurrentSession_def Let_def)
  ultimately show ?thesis by (intro existing) simp_all
qed

lemma getCurrentSession_lookup:
  assumes "getCurrentSession e u st = ((key, s), st1)"
  shows "map_of (conversationSessions st1) key = Some s"
    and "map_of (userCurrentSessions st1) u = Some key"
  using assms by (cases rule: getCurrentSession_cases[of st u e]; simp add: update_conv')+

lemma appendToSession_eq:
  assumes "getCurrentSession e (m_userId m) st = ((key, s), st1)"
  shows "appendToSession e m st =
         st1\<lparr>conversationSessions := AList.update key (pushMessage e m s) (conversationSessions st1)\<rparr>"
  using assms by (simp add: appendToSession_def)

lemma pushMessage_props:
  "length (messages (pushMessage e m s)) \<le> 15" "lastActivity (pushMessage e m s) = now e"
  "messages (pushMessage e m s) \<noteq> []" "last (messages (pushMessage e m s)) = m"
  "s_userId (pushMessage e m s) = s_userId s" "sessionId (pushMessage e m s) = sessionId s"
  by (simp_all add: pushMessage_def Let_def updateSessionActivity_def MAX_RECENT_MESSAGES_def slice_last_def)

lemma appendToSession_current:
  "\<exists>sid s. map_of (userCurrentSessions (appendToSession e m st)) (m_userId m) = Some sid
     \<and> map_of (conversationSessions (appendToSession e m st)) sid = Some s
     \<and> lastActivity s = now e \<and> length (messages s) \<le> 15
     \<and> messages s \<noteq> [] \<and> last (messages s) = m"
proof -
  obtain key s st1 where g: "getCurrentSession e (m_userId m) st = ((key, s), st1)"
    by (metis surj_pair)
  show ?thesis
    using getCurrentSession_lookup(2)[OF g]
    by (simp add: appendToSession_eq[OF g] update_conv' pushMessage_props)
qed

lemma sessionsBounded_iff:
  "sessionsBounded st \<longleftrightarrow>
     (\<forall>sid s. map_of (conversationSessions st) sid = Some s \<longrightarrow> length (messages s) \<le> 15)"
proof
  assume b: "sessionsBounded st"
  show "\<forall>sid s. map_of (conversationSessions st) sid = Some s \<longrightarrow> length (messages s) \<le> 15"
  proof (intro allI impI)
    fix sid s assume h: "map_of (conversationSessions st) sid = Some s"
    then have "sid \<in> set (map fst (conversationSessions st))"
      by (metis map_of_SomeD fst_conv image_eqI set_map)
    with b h show "length (messages s) \<le> 15"
      by (auto simp: sessionsBounded_def list_all_iff)
  qed
next
  assume "\<forall>sid s. map_of (conversationSessions st) sid = Some s \<longrightarrow> length (messages s) \<le> 15"
  then show "sessionsBounded st"
    by (auto simp: sessionsBounded_def list_all_iff split: option.splits)
qed

lemma pointersOwned_iff:
  "pointersOwned st \<longleftrightarrow>
     (\<forall>u sid. map_of (userCurrentSessions st) u = Some sid \<longrightarrow>
        (\<exists>s. map_of (conversationSessions st) sid = Some s \<and> s_userId s = u))"
proof
  assume b: "pointersOwned st"
  show "\<forall>u sid. map_of (userCurrentSessions st) u = Some sid \<longrightarrow>
        (\<exists>s. map_of (conversationSessions st) sid = Some s \<and> s_userId s = u)"
  proof (intro allI impI)
    fix u sid assume h: "map_of (userCurrentSessions st) u = Some sid"
    then have "u \<in> set (map fst (userCurrentSessions st))"
      by (metis map_of_SomeD fst_conv image_eqI set_map)
    with b have "case map_of (userCurrentSessions st) u of
                      None \<Rightarrow> True
                    | Some sid \<Rightarrow> (case map_of (conversationSessions st) sid of
                                    None \<Rightarrow> False | Some s \<Rightarrow> s_userId s = u)"
      unfolding pointersOwned_def list_all_iff by blast
    with h show "\<exists>s. map_of (conversationSessions st) sid = Some s \<and> s_userId s = u"
      by (simp split: option.splits)
  qed
next
  assume "\<forall>u sid. map_of (userCurrentSessions st) u = Some sid \<longrightarrow>
        (\<exists>s. map_of (conversationSessions st) sid = Some s \<and> s_userId s = u)"
  then show "pointersOwned st"
    by (fastforce simp: pointersOwned_def list_all_iff split: option.splits)
qed

text \<open>Every call keeps the bound on the stored sessions.\<close>

lemma getCurrentSession_bounded:
  assumes "sessionsBounded st" shows "sessionsBounded (snd (getCurrentSession e u st))"
  using assms
  by (cases rule: getCurrentSession_cases[of st u e]; simp add: sessionsBounded_iff update_conv')

lemma appendToSession_bounded:
  assumes "sessionsBounded st" shows "sessionsBounded (appendToSession e m st)"
proof -
  obtain key s st1 where g: "getCurrentSession e (m_userId m) st = ((key, s), st1)"
    by (metis surj_pair)
  from getCurrentSession_bounded[OF assms, of e "m_userId m"] g have "sessionsBounded st1" by simp
  then show ?thesis
    by (simp add: appendToSession_eq[OF g] sessionsBounded_iff update_conv' pushMessage_props)
qed

lemma removeSession_bounded:
  assumes "sessionsBounded st" shows "sessionsBounded (removeSession sid st)"
  using assms
  by (simp add: removeSession_def Let_def sessionsBounded_iff delete_conv' split: option.splits)

lemma fold_removeSession_bounded:
  "sessionsBounded st \<Longrightarrow> sessionsBounded (fold removeSession sids st)"
  by (induction sids arbitrary: st) (simp_all add: removeSession_bounded)

lemma startNewConversation_bounded:
  assumes "sessionsBounded st" shows "sessionsBounded (snd (startNewConversation e u st))"
proof -
  let ?st1 = "st\<lparr>userCurrentSessions := AList.delete u (userCurrentSessions st)\<rparr>"
  from assms have "sessionsBounded ?st1" by (simp add: sessionsBounded_iff)
  from getCurrentSession_bounded[OF this, of e u] show ?thesis
    by (simp add: startNewConversation_def Let_def split_beta)
qed

lemma sessionsBounded_cong:
  "conversationSessions st' = conversationSessions st \<Longrightarrow> sessionsBounded st' = sessionsBounded st"
  by (simp add: sessionsBounded_iff)

lemma step_bounded:
  assumes "sessionsBounded st" shows "sessionsBounded (step c st)"
proof (cases c)
  case (Pair e call)
  show ?thesis
  proof (cases call)
    case (AddChatMessage m k)
    with Pair appendToSession_bounded[OF assms, of e m] show ?thesis
      by (simp add: addChatMessage_def Let_def sessionsBounded_cong[OF addMessageToStore_frame(1)]
          split: option.split)
  next
    case (AddChatMessageSync m k)
    with Pair appendToSession_bounded[OF assms, of e m] show ?thesis
      by (simp add: addChatMessageSync_def Let_def sessionsBounded_cong[OF addMessageToStore_frame(1)]
          split: option.split)
  next
    case (SearchRelevantHistory q u k l)
    with Pair assms show ?thesis by (simp add: sessionsBounded_cong[OF searchRelevantHistory_frame(1)])
  next
    case (SearchRelevantDocuments q u k l)
    with Pair assms show ?thesis by (simp add: sessionsBounded_cong[OF searchRelevantDocuments_frame(1)])
  next
    case (AddDocumentsCall ds k)
    with Pair assms show ?thesis by (simp add: sessionsBounded_cong[OF addDocuments_frame(1)])
  next
    case (GetRecentMessages u l)
    with Pair getCurrentSession_bounded[OF assms, of e u] show ?thesis
      by (simp add: getRecentMessages_def Let_def split_beta)
  next
    case (StartNewConversation u)
    with Pair startNewConversation_bounded[OF assms] show ?thesis by simp
  next
    case CleanupExpiredSessions
    with Pair fold_removeSession_bounded[OF assms] show ?thesis
      by (simp add: cleanupExpiredSessions_def)
  qed
qed

lemma run_bounded: "sessionsBounded st \<Longrightarrow> sessionsBounded (run cs st)"
  unfolding run_def by (induction cs arbitrary: st) (simp_all add: step_bounded)

lemma initial_bounded: "sessionsBounded initial_state"
  by (simp add: sessionsBounded_def initial_state_def)

lemma freshId_None: "freshId e st \<longleftrightarrow> map_of (conversationSessions st) (uuidv4 e) = None"
  by (simp add: freshId_def map_of_eq_None_iff)

lemma owned_pointer_not_fresh:
  assumes "pointersOwned st" and "freshId e st" and "map_of (userCurrentSessions st) v = Some sid"
  shows "sid \<noteq> uuidv4 e"
proof -
  from assms(1,3) obtain s where "map_of (conversationSessions st) sid = Some s"
    unfolding pointersOwned_iff by blast
  with assms(2) show ?thesis by (auto simp: freshId_None)
qed

lemma getCurrentSession_owned:
  assumes "pointersOwned st" and "freshId e st"
  shows "pointersOwned (snd (getCurrentSession e u st))"
proof (cases rule: getCurrentSession_cases[of st u e])
  case (existing i s)
  with assms show ?thesis by simp
next
  case created
  have "\<And>v sid. map_of (userCurrentSessions st) v = Some sid \<Longrightarrow> sid \<noteq> uuidv4 e"
    using owned_pointer_not_fresh[OF assms] .
  with assms(1) show ?thesis
    by (auto simp: created pointersOwned_iff update_conv')
qed

lemma appendToSession_owned:
  assumes "pointersOwned st" and "freshId e st"
  shows "pointersOwned (appendToSession e m st)"
proof -
  obtain key s st1 where g: "getCurrentSession e (m_userId m) st = ((key, s), st1)"
    by (metis surj_pair)
  from getCurrentSession_owned[OF assms, of "m_userId m"] g have o: "pointersOwned st1" by simp
  note k = getCurrentSession_lookup(1)[OF g]
  show ?thesis
    unfolding appendToSession_eq[OF g] pointersOwned_iff
  proof (intro allI impI)
    fix v sid
    assume "map_of (userCurrentSessions (st1\<lparr>conversationSessions :=
              AList.update key (pushMessage e m s) (conversationSessions st1)\<rparr>)) v = Some sid"
    then have "map_of (userCurrentSessions st1) v = Some sid" by simp
    with o obtain s' where s': "map_of (conversationSessions st1) sid = Some s'" "s_userId s' = v"
      by (auto simp: pointersOwned_iff)
    show "\<exists>sa. map_of (conversationSessions (st1\<lparr>conversationSessions :=
              AList.update key (pushMessage e m s) (conversationSessions st1)\<rparr>)) sid = Some sa
            \<and> s_userId sa = v"
      using s' k by (cases "sid = key") (simp_all add: update_conv' pushMessage_props)
  qed
qed

lemma removeSession_owned:
  assumes "pointersOwned st"
  shows "pointersOwned (removeSession sid st)"
proof (cases "map_of (conversationSessions st) sid")
  case None
  with assms show ?thesis by (simp add: removeSession_def)
next
  case (Some s)
  show ?thesis
    unfolding pointersOwned_iff
  proof (intro allI impI)
    fix v sid'
    assume h: "map_of (userCurrentSessions (removeSession sid st)) v = Some sid'"
    then have p: "map_of (userCurrentSessions st) v = Some sid'"
      by (simp add: removeSession_def Some Let_def delete_conv' split: if_splits)
    with assms obtain s' where s': "map_of (conversationSessions st) sid' = Some s'" "s_userId s' = v"
      by (auto simp: pointersOwned_iff)
    have "sid' \<noteq> sid"
    proof
      assume "sid' = sid"
      with s' Some have "s_userId s = v" by simp
      with h p \<open>sid' = sid\<close> show False
        by (simp add: removeSession_def Some Let_def delete_conv' split: if_splits)
    qed
    with s' show "\<exists>s. map_of (conversationSessions (removeSession sid st)) sid' = Some s \<and> s_userId s = v"
      by (simp add: removeSession_def Some Let_def delete_conv')
  qed
qed

lemma fold_removeSession_owned:
  "pointersOwned st \<Longrightarrow> pointersOwned (fold removeSession sids st)"
  by (induction sids arbitrary: st) (simp_all add: removeSession_owned)

lemma startNewConversation_owned:
  assumes "pointersOwned st" and "freshId e st"
  shows "pointersOwned (snd (startNewConversation e u st))"
proof -
  let ?st1 = "st\<lparr>userCurrentSessions := AList.delete u (userCurrentSessions st)\<rparr>"
  from assms(1) have "pointersOwned ?st1"
    by (auto simp: pointersOwned_iff delete_conv' split: if_splits)
  moreover from assms(2) have "freshId e ?st1" by (simp add: freshId_def)
  ultimately have "pointersOwned (snd (getCurrentSession e u ?st1))"
    by (rule getCurrentSession_owned)
  then show ?thesis by (simp add: startNewConversation_def Let_def split_beta)
qed

lemma pointersOwned_cong:
  "conversationSessions st' = conversationSessions st \<Longrightarrow>
   userCurrentSessions st' = userCurrentSessions st \<Longrightarrow> pointersOwned st' = pointersOwned st"
  by (simp add: pointersOwned_iff)

lemma step_owned:
  assumes "pointersOwned st" and "freshId (fst c) st"
  shows "pointersOwned (step c st)"
proof (cases c)
  case (Pair e call)
  with assms have f: "freshId e st" by simp
  show ?thesis
  proof (cases call)
    case (AddChatMessage m k)
    with Pair appendToSession_owned[OF assms(1) f, of m] show ?thesis
      by (simp add: addChatMessage_def Let_def
          pointersOwned_cong[OF addMessageToStore_frame] split: option.split)
  next
    case (AddChatMessageSync m k)
    with Pair appendToSession_owned[OF assms(1) f, of m] show ?thesis
      by (simp add: addChatMessageSync_def Let_def
          pointersOwned_cong[OF addMessageToStore_frame] split: option.split)
  next
    case (SearchRelevantHistory q u k l)
    with Pair assms show ?thesis by (simp add: pointersOwned_cong[OF searchRelevantHistory_frame])
  next
    case (SearchRelevantDocuments q u k l)
    with Pair assms show ?thesis by (simp add: pointersOwned_cong[OF searchRelevantDocuments_frame])
  next
    case (AddDocumentsCall ds k)
    with Pair assms show ?thesis by (simp add: pointersOwned_cong[OF addDocuments_frame])
  next
    case (GetRecentMessages u l)
    with Pair getCurrentSession_owned[OF assms(1) f, of u] show ?thesis
      by (simp add: getRecentMessages_def Let_def split_beta)
  next
    case (StartNewConversation u)
    with Pair startNewConversation_owned[OF assms(1) f] show ?thesis by simp
  next
    case CleanupExpiredSessions
    with Pair fold_removeSession_owned[OF assms(1)] show ?thesis
      by (simp add: cleanupExpiredSessions_def)
  qed
qed

lemma validTrace_owned:
  "pointersOwned st \<Longrightarrow> validTrace cs st \<Longrightarrow> pointersOwned (run cs st)"
  unfolding run_def by (induction cs arbitrary: st) (simp_all add: step_owned)

lemma initial_owned: "pointersOwned initial_state"
  by (simp add: pointersOwned_def initial_state_def)


subsection \<open>Search results\<close>

lemma in_take_map_filter:
  assumes "d \<in> set (take n (map fst (filter P rs)))"
  shows "\<exists>s. P (d, s)"
proof -
  from assms have "d \<in> fst ` set (filter P rs)" by (auto dest: in_set_takeD)
  then obtain p where "p \<in> set rs" "P p" "fst p = d" by auto
  then have "P (d, snd p)" by auto
  then show ?thesis ..
qed

lemma sentinel_userId: "md_userId (metadata sentinelDocument) = None"
  by (simp add: sentinelDocument_def no_metadata_def)

lemma searchRelevantHistory_results:
  assumes "fst (searchRelevantHistory e q u k l st) = Inr ds" and "d \<in> set ds"
  shows "\<exists>s. historyFilter u (d, s)"
  using assms
  by (auto simp: searchRelevantHistory_def Let_def split: option.splits if_splits prod.splits sum.splits
      dest!: in_take_map_filter)

lemma searchRelevantDocuments_results:
  assumes "fst (searchRelevantDocuments e q u k l st) = Inr ds" and "d \<in> set ds"
  shows "\<exists>s. listFilter u (d, s)"
  using assms
  by (auto simp: searchRelevantDocuments_def listFilter_def documentFilter_def Let_def split: option.splits if_splits prod.splits sum.splits
      dest!: in_take_map_filter)


subsection \<open>Evaluation of the examples\<close>

lemmas example_defs = msgA_def msgB_def chunkA_def exampleResults_def exampleEnv_def
  failingEnv_def exampleStore_def initial_state_def sentinelDocument_def messageDocument_def
  no_metadata_def role_string_def

lemma emptyQuery_hello: "\<not> emptyQuery ''hello''"
  by (simp add: emptyQuery_def trim_def isWhiteSpace_def)

lemma example_history_search: "fst (searchRelevantHistory exampleEnv ''hello'' ''alice'' (Some ''sk-key'') 5 exampleStore)
      = Inr [messageDocument msgA, chunkA]"
  by (simp add: searchRelevantHistory_def storeSearch_def historyFilter_def emptyQuery_hello example_defs)

lemma example_document_search: "fst (searchRelevantDocuments exampleEnv ''hello'' ''alice'' (Some ''sk-key'') 5 exampleStore)
      = Inr [chunkA]"
  by (simp add: searchRelevantDocuments_def storeSearch_def documentFilter_def emptyQuery_hello example_defs)


lemmas session_defs = run_def addChatMessage_def appendToSession_def getCurrentSession_def
  pushMessage_def updateSessionActivity_def MAX_RECENT_MESSAGES_def slice_last_def freshId_def
  secondEnv_def exampleTrace_def Let_def

lemma exampleTrace_state:
  "run exampleTrace initial_state =
     initial_state\<lparr>conversationSessions :=
         [(''s1'', \<lparr>sessionId = ''s1'', s_userId = ''alice'', messages = [msgA],
                    lastActivity = 1000, createdAt = 1000\<rparr>)],
       userCurrentSessions := [(''alice'', ''s1'')]\<rparr>"
  by (simp add: session_defs example_defs)


subsection \<open>Appending to a session; context sections\<close>

lemma addChatMessage_current:
  "\<exists>sid s. map_of (userCurrentSessions (addChatMessage e m k st)) (m_userId m) = Some sid
     \<and> map_of (conversationSessions (addChatMessage e m k st)) sid = Some s
     \<and> lastActivity s = now e \<and> length (messages s) \<le> 15
     \<and> messages s \<noteq> [] \<and> last (messages s) = m"
  using appendToSession_current[of e m st]
  by (simp add: addChatMessage_def Let_def addMessageToStore_frame split: option.split)

lemma addChatMessageSync_current:
  "\<exists>sid s. map_of (userCurrentSessions (snd (addChatMessageSync e m k st))) (m_userId m) = Some sid
     \<and> map_of (conversationSessions (snd (addChatMessageSync e m k st))) sid = Some s
     \<and> lastActivity s = now e \<and> length (messages s) \<le> 15
     \<and> messages s \<noteq> [] \<and> last (messages s) = m"
  using appendToSession_current[of e m st]
  by (simp add: addChatMessageSync_def Let_def addMessageToStore_frame split: option.split)

lemma longTrace_state:
  "run longTrace initial_state =
     initial_state\<lparr>conversationSessions :=
         [(''s1'', \<lparr>sessionId = ''s1'', s_userId = ''alice'', messages = replicate 15 msgA,
                    lastActivity = 1000, createdAt = 1000\<rparr>)],
       userCurrentSessions := [(''alice'', ''s1'')]\<rparr>"
  by (simp add: longTrace_def eval_nat_numeral run_def addChatMessage_def appendToSession_def
      getCurrentSession_def pushMessage_def updateSessionActivity_def MAX_RECENT_MESSAGES_def
      slice_last_def Let_def exampleEnv_def initial_state_def msgA_def)

lemma slice_last_Nil: "0 < n \<Longrightarrow> (slice_last n xs = []) = (xs = [])"
proof (cases xs)
  case Nil
  then show ?thesis by (simp add: slice_last_def)
next
  case (Cons x ys)
  assume "0 < n"
  then have "length xs - n < length xs" using Cons by simp
  then have "drop (length xs - n) xs \<noteq> []" by simp
  with Cons \<open>0 < n\<close> show ?thesis by (simp add: slice_last_def)
qed

lemma contextSections_Nil:
  "(contextSections recent hist docs = [])
     = (\<not> (length recent > 0 \<or> usedContext_spec recent hist docs))"
  by (simp add: contextSections_def usedContext_spec_def recentContext_def slice_last_Nil)

lemma example_processChat:
  "processChat exampleRequest [msgA] [] [] (Some ''ok'') ''a1'' 3000
     = Inr \<lparr>r_id = ''a1'', r_response = ''ok'', r_timestamp = 3000,
            relevantContext = [''RECENT CONVERSATION:'' @ [CHR 0x0A] @ ''user: hello'']\<rparr>"
  by (simp add: processChat_def exampleRequest_def contextSections_def recentContext_def
      semanticContext_def documentContext_def slice_last_def msgA_def role_string_def)

lemma two_calls_state:
  "addChatMessage secondEnv msgB None (addChatMessage exampleEnv msgA None initial_state) =
     initial_state\<lparr>conversationSessions :=
         [(''s1'', \<lparr>sessionId = ''s1'', s_userId = ''alice'', messages = [msgA],
                    lastActivity = 1000, createdAt = 1000\<rparr>),
          (''s2'', \<lparr>sessionId = ''s2'', s_userId = ''bob'', messages = [msgB],
                    lastActivity = 5000, createdAt = 5000\<rparr>)],
       userCurrentSessions := [(''alice'', ''s1''), (''bob'', ''s2'')]\<rparr>"
  by (simp add: addChatMessage_def appendToSession_def getCurrentSession_def pushMessage_def
      updateSessionActivity_def MAX_RECENT_MESSAGES_def slice_last_def Let_def secondEnv_def
      exampleEnv_def initial_state_def msgA_def msgB_def)


subsection \<open>The drain\<close>







subsection \<open>Searches never reject\<close>

lemma searchRelevantHistory_Inr: "\<exists>ds. fst (searchRelevantHistory e q u key l st) = Inr ds"
  by (simp add: searchRelevantHistory_def Let_def split_beta split: option.split sum.split)

lemma searchRelevantDocuments_Inr: "\<exists>ds. fst (searchRelevantDocuments e q u key l st) = Inr ds"
  by (simp add: searchRelevantDocuments_def Let_def split_beta split: option.split sum.split)

lemma search_init_fails:
  assumes "k \<noteq> []" and "vectorStore st = None"
    and "isl (fst (initializeVectorStoreWithKey e k st))"
  shows "fst (searchRelevantHistory e q u (Some k) l st) = Inr []"
    and "fst (searchRelevantDocuments e q u (Some k) l st) = Inr []"
  using assms
  by (simp_all add: searchRelevantHistory_def searchRelevantDocuments_def Let_def split_beta
      isl_def split: sum.split) auto

lemma search_store_fails:
  assumes "k \<noteq> []" and "vectorStore st = Some ds"
    and "\<forall>q' n. similaritySearchWithScore e ds q' n = None"
  shows "fst (searchRelevantHistory e q u (Some k) l st) = Inr []"
    and "fst (searchRelevantDocuments e q u (Some k) l st) = Inr []"
  using assms
  by (simp_all add: searchRelevantHistory_def searchRelevantDocuments_def Let_def storeSearch_def)

lemma searchRelevantHistory_unfold:
  assumes "k \<noteq> []"
  shows "fst (searchRelevantHistory e q u (Some k) l st) =
     (if vectorStore st = None \<and> isl (fst (initializeVectorStoreWithKey e k st)) then Inr []
      else if emptyQuery q then Inr []
      else (case fst (storeSearch e q (l * 2) (afterInit e k st)) of
              None \<Rightarrow> Inr []
            | Some results \<Rightarrow> Inr (take l (map fst (filter (historyFilter u) results)))))"
proof (cases "vectorStore st = None")
  case True
  obtain r st1 where i: "initializeVectorStoreWithKey e k st = (r, st1)" by (metis surj_pair)
  obtain x st2 where s: "storeSearch e q (l * 2) st1 = (x, st2)" by (metis surj_pair)
  from assms True i s show ?thesis
    by (cases r; cases x) (simp_all add: searchRelevantHistory_def afterInit_def)
next
  case False
  then obtain ds where v: "vectorStore st = Some ds" by auto
  obtain x st2 where s: "storeSearch e q (l * 2) st = (x, st2)" by (metis surj_pair)
  from assms v s show ?thesis
    by (cases x) (simp_all add: searchRelevantHistory_def afterInit_def)
qed

lemma searchRelevantDocuments_unfold:
  assumes "k \<noteq> []"
  shows "fst (searchRelevantDocuments e q u (Some k) l st) =
     (if vectorStore st = None \<and> isl (fst (initializeVectorStoreWithKey e k st)) then Inr []
      else if emptyQuery q
      then (case fst (storeSearch e ''document'' (l * 5) (afterInit e k st)) of
              None \<Rightarrow> Inr []
            | Some results \<Rightarrow> Inr (take l (map fst (filter (listFilter u) results))))
      else (case fst (storeSearch e q (l * 2) (afterInit e k st)) of
              None \<Rightarrow> Inr []
            | Some results \<Rightarrow> Inr (take l (map fst (filter (documentFilter u) results)))))"
proof (cases "vectorStore st = None")
  case True
  obtain r st1 where i: "initializeVectorStoreWithKey e k st = (r, st1)" by (metis surj_pair)
  obtain x st2 where s: "storeSearch e q (l * 2) st1 = (x, st2)" by (metis surj_pair)
  obtain y st3 where t: "storeSearch e ''document'' (l * 5) st1 = (y, st3)" by (metis surj_pair)
  from assms True i s t show ?thesis
    by (cases r; cases x; cases y) (simp_all add: searchRelevantDocuments_def afterInit_def)
next
  case False
  then obtain ds where v: "vectorStore st = Some ds" by auto
  obtain x st2 where s: "storeSearch e q (l * 2) st = (x, st2)" by (metis surj_pair)
  obtain y st3 where t: "storeSearch e ''document'' (l * 5) st = (y, st3)" by (metis surj_pair)
  from assms v s t show ?thesis
    by (cases x; cases y) (simp_all add: searchRelevantDocuments_def afterInit_def)
qed

lemma search_own_search_fails:
  assumes "k \<noteq> []"
  shows "fst (storeSearch e q (l * 2) (afterInit e k st)) = None \<Longrightarrow>
           fst (searchRelevantHistory e q u (Some k) l st) = Inr []"
    and "fst (storeSearch e (if emptyQuery q then ''document'' else q)
              (if emptyQuery q then l * 5 else l * 2) (afterInit e k st)) = None \<Longrightarrow>
           fst (searchRelevantDocuments e q u (Some k) l st) = Inr []"
  by (auto simp: searchRelevantHistory_unfold[OF assms] searchRelevantDocuments_unfold[OF assms]
      split: if_splits)

subsection \<open>Empty queries\<close>

lemma storeAddDocuments_searches:
  "filter isSimilaritySearch (externalCalls (snd (storeAddDocuments e ds st)))
     = filter isSimilaritySearch (externalCalls st)"
  by (simp add: storeAddDocuments_def Let_def split: option.split)

lemma processAll_searches:
  "filter isSimilaritySearch (externalCalls (snd (processAll e ms st)))
     = filter isSimilaritySearch (externalCalls st)"
  by (induction ms arbitrary: st)
     (simp_all add: split_beta Let_def addMessageToStore_ready_def storeAddDocuments_searches)

lemma initializeVectorStoreWithKey_searches:
  "filter isSimilaritySearch (externalCalls (snd (initializeVectorStoreWithKey e k st)))
     = filter isSimilaritySearch (externalCalls st)"
  by (simp add: initializeVectorStoreWithKey_def Let_def processAll_searches split: sum.split)

lemma emptyQuery_blank: "emptyQuery ''  ''"
  by (simp add: emptyQuery_def trim_def isWhiteSpace_def)

subsection \<open>The sweep\<close>

lemma expired_iff:
  "(hoursSinceLastActivity t s > MAX_SESSION_AGE_HOURS) = (t - lastActivity s > 48 * hour)"
proof -
  have "(real_of_int (t - lastActivity s) / 3600000 > 48)
      = (real_of_int (t - lastActivity s) > 48 * 3600000)"
    by (simp add: field_simps)
  also have "\<dots> = (real_of_int (t - lastActivity s) > real_of_int 172800000)" by simp
  also have "\<dots> = (t - lastActivity s > 172800000)" by (simp only: of_int_less_iff)
  finally show ?thesis
    by (simp add: hoursSinceLastActivity_def MAX_SESSION_AGE_HOURS_def hour_def)
qed

lemma removeSession_sessions:
  "map_of (conversationSessions (removeSession x st)) = (map_of (conversationSessions st))(x := None)"
  by (auto simp: removeSession_def Let_def delete_conv' split: option.split)

lemma fold_removeSession_sessions:
  "map_of (conversationSessions (fold removeSession ids st)) sid
     = (if sid \<in> set ids then None else map_of (conversationSessions st) sid)"
  by (induction ids arbitrary: st) (simp_all add: removeSession_sessions)

lemma removeSession_pointer_kept_away:
  assumes "map_of (userCurrentSessions st) u \<noteq> Some sid"
  shows "map_of (userCurrentSessions (removeSession x st)) u \<noteq> Some sid"
  using assms by (simp add: removeSession_def Let_def delete_conv' split: option.split)

lemma fold_removeSession_pointer_kept_away:
  "map_of (userCurrentSessions st) u \<noteq> Some sid \<Longrightarrow>
   map_of (userCurrentSessions (fold removeSession ids st)) u \<noteq> Some sid"
  by (induction ids arbitrary: st) (simp_all add: removeSession_pointer_kept_away)

lemma removeSession_pointer_cleared:
  assumes "map_of (conversationSessions st) sid = Some s"
  shows "map_of (userCurrentSessions (removeSession sid st)) (s_userId s) \<noteq> Some sid"
  using assms by (simp add: removeSession_def Let_def delete_conv')

lemma fold_removeSession_pointer_cleared:
  "map_of (conversationSessions st) sid = Some s \<Longrightarrow> sid \<in> set ids \<Longrightarrow>
   map_of (userCurrentSessions (fold removeSession ids st)) (s_userId s) \<noteq> Some sid"
proof (induction ids arbitrary: st)
  case Nil
  then show ?case by simp
next
  case (Cons x ids)
  show ?case
  proof (cases "x = sid")
    case True
    from removeSession_pointer_cleared[OF Cons.prems(1)]
    show ?thesis
      using True by (simp add: fold_removeSession_pointer_kept_away)
  next
    case False
    with Cons.prems have "map_of (conversationSessions (removeSession x st)) sid = Some s"
      and "sid \<in> set ids"
      by (simp_all add: removeSession_sessions)
    from Cons.IH[OF this] show ?thesis by simp
  qed
qed

lemma removeSession_pointer_kept:
  assumes "map_of (userCurrentSessions st) u = Some sid" and "sid \<noteq> x"
  shows "map_of (userCurrentSessions (removeSession x st)) u = Some sid"
  using assms by (auto simp: removeSession_def Let_def delete_conv' split: option.split)

lemma fold_removeSession_pointer_kept:
  "map_of (userCurrentSessions st) u = Some sid \<Longrightarrow> sid \<notin> set ids \<Longrightarrow>
   map_of (userCurrentSessions (fold removeSession ids st)) u = Some sid"
  by (induction ids arbitrary: st) (simp_all add: removeSession_pointer_kept)

lemma fold_removeSession_pointer_None:
  "map_of (userCurrentSessions st) u = None \<Longrightarrow>
   map_of (userCurrentSessions (fold removeSession ids st)) u = None"
  by (induction ids arbitrary: st)
     (simp_all add: removeSession_def Let_def delete_conv' split: option.split)

lemma expiredSessions_member:
  assumes "map_of (conversationSessions st) sid = Some s"
  shows "t - lastActivity s > 48 * hour \<Longrightarrow> sid \<in> set (expiredSessions t st)"
    and "distinct (map fst (conversationSessions st)) \<Longrightarrow> sid \<in> set (expiredSessions t st)
           \<Longrightarrow> t - lastActivity s > 48 * hour"
proof -
  from assms have m: "(sid, s) \<in> set (conversationSessions st)" by (rule map_of_SomeD)
  { assume "t - lastActivity s > 48 * hour"
    with m show "sid \<in> set (expiredSessions t st)"
      by (force simp: expiredSessions_def expired_iff) }
  { assume d: "distinct (map fst (conversationSessions st))"
      and "sid \<in> set (expiredSessions t st)"
    then obtain s' where s': "(sid, s') \<in> set (conversationSessions st)"
        "t - lastActivity s' > 48 * hour"
      by (auto simp: expiredSessions_def expired_iff)
    from d s'(1) have "map_of (conversationSessions st) sid = Some s'" by (rule map_of_is_SomeI)
    with assms s'(2) show "t - lastActivity s > 48 * hour" by simp }
qed

lemma sweepState_sessions:
  "distinct (map fst (conversationSessions sweepState))"
  "map_of (conversationSessions sweepState) ''s1''
     = Some \<lparr>sessionId = ''s1'', s_userId = ''alice'', messages = [msgA],
              lastActivity = 0, createdAt = 0\<rparr>"
  "map_of (conversationSessions sweepState) ''s2''
     = Some \<lparr>sessionId = ''s2'', s_userId = ''bob'', messages = [msgB],
              lastActivity = 2 * hour, createdAt = hour\<rparr>"
  "map_of (conversationSessions sweepState) ''s0''
     = Some \<lparr>sessionId = ''s0'', s_userId = ''bob'', messages = [],
              lastActivity = 0, createdAt = 0\<rparr>"
  by (simp_all add: sweepState_def)

subsection \<open>Session ids stay distinct\<close>

lemma getCurrentSession_distinct:
  assumes "distinct (map fst (conversationSessions st))"
  shows "distinct (map fst (conversationSessions (snd (getCurrentSession e u st))))"
  using assms
  by (cases rule: getCurrentSession_cases[of st u e]; simp add: distinct_update)

lemma appendToSession_distinct:
  assumes "distinct (map fst (conversationSessions st))"
  shows "distinct (map fst (conversationSessions (appendToSession e m st)))"
proof -
  obtain key s st1 where g: "getCurrentSession e (m_userId m) st = ((key, s), st1)"
    by (metis surj_pair)
  from getCurrentSession_distinct[OF assms, of e "m_userId m"] g
  have "distinct (map fst (conversationSessions st1))" by simp
  then show ?thesis by (simp add: appendToSession_eq[OF g] distinct_update)
qed

lemma removeSession_distinct:
  assumes "distinct (map fst (conversationSessions st))"
  shows "distinct (map fst (conversationSessions (removeSession x st)))"
  using assms by (simp add: removeSession_def Let_def distinct_delete split: option.split)

lemma fold_removeSession_distinct:
  "distinct (map fst (conversationSessions st)) \<Longrightarrow>
   distinct (map fst (conversationSessions (fold removeSession ids st)))"
  by (induction ids arbitrary: st) (simp_all add: removeSession_distinct)

lemma step_distinct:
  assumes "distinct (map fst (conversationSessions st))"
  shows "distinct (map fst (conversationSessions (step c st)))"
proof (cases c)
  case (Pair e call)
  show ?thesis
  proof (cases call)
    case (AddChatMessage m k)
    with Pair appendToSession_distinct[OF assms, of e m] show ?thesis
      by (simp add: addChatMessage_def Let_def addMessageToStore_frame split: option.split)
  next
    case (AddChatMessageSync m k)
    with Pair appendToSession_distinct[OF assms, of e m] show ?thesis
      by (simp add: addChatMessageSync_def Let_def addMessageToStore_frame split: option.split)
  next
    case (SearchRelevantHistory q u k l)
    with Pair assms show ?thesis by (simp add: searchRelevantHistory_frame)
  next
    case (SearchRelevantDocuments q u k l)
    with Pair assms show ?thesis by (simp add: searchRelevantDocuments_frame)
  next
    case (AddDocumentsCall ds k)
    with Pair assms show ?thesis by (simp add: addDocuments_frame)
  next
    case (GetRecentMessages u l)
    with Pair getCurrentSession_distinct[OF assms, of e u] show ?thesis
      by (simp add: getRecentMessages_def Let_def split_beta)
  next
    case (StartNewConversation u)
    let ?st1 = "st\<lparr>userCurrentSessions := AList.delete u (userCurrentSessions st)\<rparr>"
    from assms have "distinct (map fst (conversationSessions ?st1))" by simp
    from getCurrentSession_distinct[OF this, of e u] Pair StartNewConversation show ?thesis
      by (simp add: startNewConversation_def Let_def split_beta)
  next
    case CleanupExpiredSessions
    with Pair fold_removeSession_distinct[OF assms] show ?thesis
      by (simp add: cleanupExpiredSessions_def)
  qed
qed

lemma run_distinct:
  "distinct (map fst (conversationSessions st)) \<Longrightarrow>
   distinct (map fst (conversationSessions (run cs st)))"
  unfolding run_def by (induction cs arbitrary: st) (simp_all add: step_distinct)

lemma reachable_distinct: "distinct (map fst (conversationSessions (run cs initial_state)))"
  by (rule run_distinct) (simp add: initial_state_def)

subsection \<open>Chunk indices\<close>

lemma processDocument_chunks_length:
  "length (processDocument_chunks ids n ty t u textChunks) = length textChunks"
  by (simp add: processDocument_chunks_def)

lemma processDocument_chunks_index:
  assumes "i < length textChunks"
  shows "md_chunkIndex (c_metadata (processDocument_chunks ids n ty t u textChunks ! i)) = Some i"
    and "md_totalChunks (c_metadata (processDocument_chunks ids n ty t u textChunks ! i))
           = Some (length textChunks)"
    and "c_content (processDocument_chunks ids n ty t u textChunks ! i) = textChunks ! i"
  using assms by (simp_all add: processDocument_chunks_def nth_enumerate_eq)


section \<open>Claims\<close>

text \<open>
  C1. For every search call (\<^verbatim>\<open>searchRelevantHistory\<close> or \<^verbatim>\<open>searchRelevantDocuments\<close>) by
  a user \<open>u\<close>, every returned document has metadata \<open>userId\<close> equal to \<open>u\<close>, and the
  seed item (metadata id \<open>init\<close>) is never among the returned documents. The chat-history
  search moreover returns no document at all whose metadata id is \<open>init\<close>.
\<close>

theorem search_never_returns_foreign_or_sentinel:
  "(fst (searchRelevantHistory e q u k l st) = Inr ds \<longrightarrow>
      (\<forall>d \<in> set ds. md_userId (metadata d) = Some u \<and> md_id (metadata d) \<noteq> Some ''init''
          \<and> d \<noteq> sentinelDocument))
   \<and> (fst (searchRelevantDocuments e q u k l st) = Inr ds' \<longrightarrow>
      (\<forall>d \<in> set ds'. md_userId (metadata d) = Some u \<and> d \<noteq> sentinelDocument))"
proof (intro conjI impI ballI)
  fix d assume h: "fst (searchRelevantHistory e q u k l st) = Inr ds" "d \<in> set ds"
  from searchRelevantHistory_results[OF h] obtain s where "historyFilter u (d, s)" ..
  then show "md_userId (metadata d) = Some u" "md_id (metadata d) \<noteq> Some ''init''"
    by (simp_all add: historyFilter_def)
  then show "d \<noteq> sentinelDocument" using sentinel_userId by auto
next
  fix d assume h: "fst (searchRelevantDocuments e q u k l st) = Inr ds'" "d \<in> set ds'"
  from searchRelevantDocuments_results[OF h] obtain s where "listFilter u (d, s)" ..
  then show "md_userId (metadata d) = Some u" by (simp add: listFilter_def)
  then show "d \<noteq> sentinelDocument" using sentinel_userId by auto
qed

theorem search_never_returns_foreign_or_sentinel_witness:
  "fst (searchRelevantHistory exampleEnv ''hello'' ''alice'' (Some ''sk-key'') 5 exampleStore)
      = Inr [messageDocument msgA, chunkA]
   \<and> md_userId (metadata (messageDocument msgA)) = Some ''alice''
   \<and> md_id (metadata (messageDocument msgA)) \<noteq> Some ''init''
   \<and> messageDocument msgA \<noteq> sentinelDocument
   \<and> fst (searchRelevantDocuments exampleEnv ''hello'' ''alice'' (Some ''sk-key'') 5 exampleStore)
      = Inr [chunkA]
   \<and> md_userId (metadata chunkA) = Some ''alice'' \<and> chunkA \<noteq> sentinelDocument"
  using search_never_returns_foreign_or_sentinel[of exampleEnv "''hello''" "''alice''"
      "Some ''sk-key''" 5 exampleStore "[messageDocument msgA, chunkA]" "[chunkA]"] example_history_search
      example_document_search
  by simp

text \<open>
  C7. For every user, \<^verbatim>\<open>startNewConversation\<close> returns a session id different from that
  user's previous session id, and immediately after the call the user's current session
  has an empty message list. The state is any state the service reaches from its initial
  state by calls during which \<^verbatim>\<open>uuidv4\<close> returned ids that named no stored session.
\<close>

theorem startNewConversation_fresh_and_empty:
  assumes "validTrace cs initial_state" and "freshId e (run cs initial_state)"
  shows "(\<forall>prev. map_of (userCurrentSessions (run cs initial_state)) u = Some prev
            \<longrightarrow> fst (startNewConversation e u (run cs initial_state)) \<noteq> prev)
       \<and> (\<exists>s. map_of (userCurrentSessions (snd (startNewConversation e u (run cs initial_state)))) u
                 = Some (fst (startNewConversation e u (run cs initial_state)))
             \<and> map_of (conversationSessions (snd (startNewConversation e u (run cs initial_state))))
                 (fst (startNewConversation e u (run cs initial_state))) = Some s
             \<and> messages s = [])"
proof -
  let ?st = "run cs initial_state"
  let ?st1 = "?st\<lparr>userCurrentSessions := AList.delete u (userCurrentSessions ?st)\<rparr>"
  have none: "map_of (userCurrentSessions ?st1) u = None" by (simp add: delete_conv')
  have eq: "startNewConversation e u ?st =
      (uuidv4 e,
       ?st1\<lparr>conversationSessions :=
                AList.update (uuidv4 e) \<lparr>sessionId = uuidv4 e, s_userId = u, messages = [],
                      lastActivity = now e, createdAt = now e\<rparr> (conversationSessions ?st1),
             userCurrentSessions := AList.update u (uuidv4 e) (userCurrentSessions ?st1)\<rparr>)"
    using none by (cases rule: getCurrentSession_cases[of ?st1 u e])
      (simp_all add: startNewConversation_def Let_def)
  have own: "pointersOwned ?st" using validTrace_owned[OF initial_owned assms(1)] .
  have "\<And>prev. map_of (userCurrentSessions ?st) u = Some prev \<Longrightarrow> uuidv4 e \<noteq> prev"
    using owned_pointer_not_fresh[OF own assms(2)] by blast
  then show ?thesis by (simp add: eq update_conv')
qed

theorem startNewConversation_fresh_and_empty_witness:
  "validTrace exampleTrace initial_state \<and> freshId secondEnv (run exampleTrace initial_state)
   \<and> map_of (userCurrentSessions (run exampleTrace initial_state)) ''alice'' = Some ''s1''
   \<and> fst (startNewConversation secondEnv ''alice'' (run exampleTrace initial_state)) \<noteq> ''s1''
   \<and> getSessionInfo ''alice'' (snd (startNewConversation secondEnv ''alice'' (run exampleTrace initial_state)))
       = Some (''s2'', 0, 5000)"
proof -
  have v: "validTrace exampleTrace initial_state"
    by (simp add: exampleTrace_def freshId_def initial_state_def exampleEnv_def)
  have f: "freshId secondEnv (run exampleTrace initial_state)"
    by (simp add: exampleTrace_state) (simp add: freshId_def secondEnv_def initial_state_def)
  have p: "map_of (userCurrentSessions (run exampleTrace initial_state)) ''alice'' = Some ''s1''"
    by (simp add: exampleTrace_state)
  have g: "getSessionInfo ''alice'' (snd (startNewConversation secondEnv ''alice'' (run exampleTrace initial_state)))
       = Some (''s2'', 0, 5000)"
    by (simp add: exampleTrace_state)
       (simp add: startNewConversation_def getSessionInfo_def getCurrentSession_def secondEnv_def
          exampleEnv_def initial_state_def Let_def)
  from startNewConversation_fresh_and_empty[OF v f, of "''alice''"] v f p g show ?thesis by blast
qed

text \<open>
  C2, as the code has it. For every processed chat request, the boolean the route reports
  as \<^verbatim>\<open>contextUsed\<close> is true if and only if at least one of the three sections is not
  empty: the Recent section, the semantic chat-history section (step 2) or the documents
  section (step 3).
\<close>

theorem contextUsed_iff_any_section:
  assumes "processChat request recentMessages relevantHistory relevantDocuments llm aid t = Inr response"
  shows "contextUsed response
           = (length recentMessages > 0 \<or> usedContext_spec recentMessages relevantHistory relevantDocuments)"
proof -
  from assms have "relevantContext response = contextSections recentMessages relevantHistory relevantDocuments"
    by (auto simp: processChat_def Let_def split: option.splits if_splits)
  then have "contextUsed response
      = (contextSections recentMessages relevantHistory relevantDocuments \<noteq> [])"
    by (simp add: contextUsed_def)
  also have "\<dots> = (length recentMessages > 0 \<or> usedContext_spec recentMessages relevantHistory relevantDocuments)"
    unfolding contextSections_Nil by blast
  finally show ?thesis .
qed

theorem contextUsed_iff_any_section_witness:
  "processChat exampleRequest [msgA] [] [] (Some ''ok'') ''a1'' 3000
     = Inr \<lparr>r_id = ''a1'', r_response = ''ok'', r_timestamp = 3000,
            relevantContext = [''RECENT CONVERSATION:'' @ [CHR 0x0A] @ ''user: hello'']\<rparr>
   \<and> contextUsed \<lparr>r_id = ''a1'', r_response = ''ok'', r_timestamp = 3000,
            relevantContext = [''RECENT CONVERSATION:'' @ [CHR 0x0A] @ ''user: hello'']\<rparr>
       = (length [msgA] > 0 \<or> usedContext_spec [msgA] [] [])"
  using contextUsed_iff_any_section[OF example_processChat] example_processChat by blast

text \<open>
  C2 as stated (true iff step 2 or step 3 produced a hit, recent messages alone not
  making it true) fails: one recent message, no semantic hit and no document give
  \<^verbatim>\<open>contextUsed = true\<close>.
\<close>

theorem contextUsed_recent_only_counterexample:
  "map_sum id contextUsed (processChat exampleRequest [msgA] [] [] (Some ''ok'') ''a1'' 3000) = Inr True
   \<and> \<not> usedContext_spec [msgA] [] []"
  by (simp add: example_processChat contextUsed_def usedContext_spec_def semanticContext_def
      documentContext_def)

text \<open>
  C3, as the code has it. For every \<^verbatim>\<open>addChatMessage\<close> call with no credential (absent or
  empty), the message is appended to the user's current session only: the Pending Queue
  and the vector index are left as they were and no external call is made.
\<close>

theorem addChatMessage_no_key_session_only:
  assumes "k = None \<or> k = Some []"
  shows "pendingMessages (addChatMessage e m k st) = pendingMessages st
       \<and> vectorStore (addChatMessage e m k st) = vectorStore st
       \<and> externalCalls (addChatMessage e m k st) = externalCalls st
       \<and> (\<exists>sid s. map_of (userCurrentSessions (addChatMessage e m k st)) (m_userId m) = Some sid
             \<and> map_of (conversationSessions (addChatMessage e m k st)) sid = Some s
             \<and> messages s \<noteq> [] \<and> last (messages s) = m)"
proof -
  from assms have eq: "addChatMessage e m k st = appendToSession e m st"
    by (auto simp: addChatMessage_def)
  from appendToSession_current[of e m st] show ?thesis
    unfolding eq by (auto simp: appendToSession_frame)
qed

theorem addChatMessage_no_key_session_only_witness:
  "pendingMessages (addChatMessage secondEnv msgB None (addChatMessage exampleEnv msgA None initial_state))
      = pendingMessages (addChatMessage exampleEnv msgA None initial_state)
   \<and> pendingMessages (addChatMessage exampleEnv msgA None initial_state) = pendingMessages initial_state
   \<and> vectorStore (addChatMessage secondEnv msgB None (addChatMessage exampleEnv msgA None initial_state))
      = vectorStore (addChatMessage exampleEnv msgA None initial_state)
   \<and> vectorStore (addChatMessage exampleEnv msgA None initial_state) = vectorStore initial_state
   \<and> vectorStore initial_state = None"
  using addChatMessage_no_key_session_only[of None secondEnv msgB "addChatMessage exampleEnv msgA None initial_state"]
    addChatMessage_no_key_session_only[of None exampleEnv msgA initial_state]
  by (simp add: initial_state_def)

text \<open>
  C3 as stated fails: after two first-time \<^verbatim>\<open>addChatMessage\<close> calls with no credential
  the Pending Queue is empty, not of length 2.
\<close>

theorem addChatMessage_no_key_queue_counterexample:
  "length (pendingMessages
      (addChatMessage secondEnv msgB None (addChatMessage exampleEnv msgA None initial_state))) \<noteq> 2
   \<and> pendingMessages
      (addChatMessage secondEnv msgB None (addChatMessage exampleEnv msgA None initial_state)) = []"
  by (simp add: two_calls_state) (simp add: initial_state_def)

text \<open>
  C4. After any sequence of calls of the service from its initial state (in particular
  any sequence of \<^verbatim>\<open>addChatMessage\<close> and \<^verbatim>\<open>addChatMessageSync\<close> calls), every user's current
  session holds at most 15 messages; and after each \<^verbatim>\<open>addChatMessage\<close> or
  \<^verbatim>\<open>addChatMessageSync\<close> call, from any state, the current session of the message's user
  has \<^verbatim>\<open>lastActivity\<close> equal to the time of the call, at most 15 messages, and the message
  as its last one.
\<close>

theorem session_length_bounded:
  "(\<forall>u sid s. map_of (userCurrentSessions (run cs initial_state)) u = Some sid
        \<longrightarrow> map_of (conversationSessions (run cs initial_state)) sid = Some s
        \<longrightarrow> length (messages s) \<le> 15)
   \<and> (\<exists>sid s. map_of (userCurrentSessions (addChatMessage e m k st)) (m_userId m) = Some sid
        \<and> map_of (conversationSessions (addChatMessage e m k st)) sid = Some s
        \<and> lastActivity s = now e \<and> length (messages s) \<le> 15
        \<and> messages s \<noteq> [] \<and> last (messages s) = m)
   \<and> (\<exists>sid s. map_of (userCurrentSessions (snd (addChatMessageSync e m k st))) (m_userId m) = Some sid
        \<and> map_of (conversationSessions (snd (addChatMessageSync e m k st))) sid = Some s
        \<and> lastActivity s = now e \<and> length (messages s) \<le> 15
        \<and> messages s \<noteq> [] \<and> last (messages s) = m)"
proof (intro conjI)
  have "sessionsBounded (run cs initial_state)"
    using run_bounded[OF initial_bounded] .
  then show "\<forall>u sid s. map_of (userCurrentSessions (run cs initial_state)) u = Some sid
        \<longrightarrow> map_of (conversationSessions (run cs initial_state)) sid = Some s
        \<longrightarrow> length (messages s) \<le> 15"
    by (simp add: sessionsBounded_iff)
qed (rule addChatMessage_current addChatMessageSync_current)+

theorem session_length_bounded_witness:
  "getSessionInfo ''alice'' (run longTrace initial_state) = Some (''s1'', 15, 1000)
   \<and> map_of (userCurrentSessions (run longTrace initial_state)) ''alice'' = Some ''s1''
   \<and> map_of (conversationSessions (run longTrace initial_state)) ''s1''
        = Some \<lparr>sessionId = ''s1'', s_userId = ''alice'', messages = replicate 15 msgA,
                 lastActivity = 1000, createdAt = 1000\<rparr>
   \<and> length (messages \<lparr>sessionId = ''s1'', s_userId = ''alice'', messages = replicate 15 msgA,
                 lastActivity = 1000, createdAt = 1000\<rparr>) \<le> 15"
proof -
  have p: "map_of (userCurrentSessions (run longTrace initial_state)) ''alice'' = Some ''s1''"
    by (simp add: longTrace_state)
  have q: "map_of (conversationSessions (run longTrace initial_state)) ''s1''
        = Some \<lparr>sessionId = ''s1'', s_userId = ''alice'', messages = replicate 15 msgA,
                 lastActivity = 1000, createdAt = 1000\<rparr>"
    by (simp add: longTrace_state)
  have g: "getSessionInfo ''alice'' (run longTrace initial_state) = Some (''s1'', 15, 1000)"
    by (simp add: longTrace_state getSessionInfo_def)
  from session_length_bounded[of longTrace] p q g show ?thesis by blast
qed




text \<open>
  C8. After a sweep at time \<open>t\<close>, every stored session whose \<^verbatim>\<open>lastActivity\<close> is more than
  48 hours before \<open>t\<close> is absent and its user's current-session pointer does not point to
  it; every stored session whose \<^verbatim>\<open>lastActivity\<close> is at most 48 hours before \<open>t\<close> remains,
  and so does every current-session pointer to it; a user without a current session has
  none afterwards. The keys of \<^verbatim>\<open>conversationSessions\<close> are distinct, as those of a
  \<^verbatim>\<open>Map\<close> are.
\<close>

theorem sweep_removes_exactly_expired:
  assumes "distinct (map fst (conversationSessions st))"
    and "map_of (conversationSessions st) sid = Some s"
  shows "(t - lastActivity s > 48 * hour \<longrightarrow>
            map_of (conversationSessions (cleanupExpiredSessions t st)) sid = None
          \<and> map_of (userCurrentSessions (cleanupExpiredSessions t st)) (s_userId s) \<noteq> Some sid)
       \<and> (t - lastActivity s \<le> 48 * hour \<longrightarrow>
            map_of (conversationSessions (cleanupExpiredSessions t st)) sid = Some s
          \<and> (\<forall>u. map_of (userCurrentSessions st) u = Some sid \<longrightarrow>
                 map_of (userCurrentSessions (cleanupExpiredSessions t st)) u = Some sid))
       \<and> (map_of (userCurrentSessions st) v = None \<longrightarrow>
            map_of (userCurrentSessions (cleanupExpiredSessions t st)) v = None)"
proof (intro conjI impI allI)
  assume e: "t - lastActivity s > 48 * hour"
  from expiredSessions_member(1)[OF assms(2) e] have in_e: "sid \<in> set (expiredSessions t st)" .
  then show "map_of (conversationSessions (cleanupExpiredSessions t st)) sid = None"
    by (simp add: cleanupExpiredSessions_def fold_removeSession_sessions)
  from fold_removeSession_pointer_cleared[OF assms(2) in_e]
  show "map_of (userCurrentSessions (cleanupExpiredSessions t st)) (s_userId s) \<noteq> Some sid"
    by (simp add: cleanupExpiredSessions_def)
next
  assume "t - lastActivity s \<le> 48 * hour"
  with expiredSessions_member(2)[OF assms(2,1)] have out: "sid \<notin> set (expiredSessions t st)"
    by fastforce
  with assms(2) show "map_of (conversationSessions (cleanupExpiredSessions t st)) sid = Some s"
    by (simp add: cleanupExpiredSessions_def fold_removeSession_sessions)
  fix u assume "map_of (userCurrentSessions st) u = Some sid"
  from fold_removeSession_pointer_kept[OF this out]
  show "map_of (userCurrentSessions (cleanupExpiredSessions t st)) u = Some sid"
    by (simp add: cleanupExpiredSessions_def)
next
  assume "map_of (userCurrentSessions st) v = None"
  then show "map_of (userCurrentSessions (cleanupExpiredSessions t st)) v = None"
    by (simp add: cleanupExpiredSessions_def fold_removeSession_pointer_None)
qed

theorem sweep_removes_exactly_expired_witness:
  "distinct (map fst (conversationSessions sweepState))
   \<and> getSessionInfo ''alice'' sweepState = Some (''s1'', 1, 0)
   \<and> getSessionInfo ''bob'' sweepState = Some (''s2'', 1, 2 * hour)
   \<and> 49 * hour - 0 > 48 * hour
   \<and> map_of (conversationSessions (cleanupExpiredSessions (49 * hour) sweepState)) ''s1'' = None
   \<and> map_of (conversationSessions (cleanupExpiredSessions (49 * hour) sweepState)) ''s0'' = None
   \<and> map_of (userCurrentSessions (cleanupExpiredSessions (49 * hour) sweepState)) ''alice'' \<noteq> Some ''s1''
   \<and> 49 * hour - 2 * hour \<le> 48 * hour
   \<and> map_of (conversationSessions (cleanupExpiredSessions (49 * hour) sweepState)) ''s2''
       = Some \<lparr>sessionId = ''s2'', s_userId = ''bob'', messages = [msgB],
                lastActivity = 2 * hour, createdAt = hour\<rparr>
   \<and> map_of (userCurrentSessions (cleanupExpiredSessions (49 * hour) sweepState)) ''bob'' = Some ''s2''
   \<and> getSessionInfo ''bob'' (cleanupExpiredSessions (49 * hour) sweepState) = Some (''s2'', 1, 2 * hour)"
proof -
  have a: "49 * hour - 0 > 48 * hour" and b: "49 * hour - 2 * hour \<le> 48 * hour"
    by (simp_all add: hour_def)
  have g: "getSessionInfo ''alice'' sweepState = Some (''s1'', 1, 0)"
    "getSessionInfo ''bob'' sweepState = Some (''s2'', 1, 2 * hour)"
    by (simp_all add: getSessionInfo_def sweepState_def)
  have p: "map_of (userCurrentSessions sweepState) ''bob'' = Some ''s2''"
    by (simp add: sweepState_def)
  from sweep_removes_exactly_expired[OF sweepState_sessions(1,2), of "49 * hour"] a
  have s1: "map_of (conversationSessions (cleanupExpiredSessions (49 * hour) sweepState)) ''s1'' = None"
    "map_of (userCurrentSessions (cleanupExpiredSessions (49 * hour) sweepState)) ''alice'' \<noteq> Some ''s1''"
    by simp_all
  from sweep_removes_exactly_expired[OF sweepState_sessions(1,4), of "49 * hour"] a
  have s0: "map_of (conversationSessions (cleanupExpiredSessions (49 * hour) sweepState)) ''s0'' = None"
    by simp
  from sweep_removes_exactly_expired[OF sweepState_sessions(1,3), of "49 * hour"] b p
  have s2: "map_of (conversationSessions (cleanupExpiredSessions (49 * hour) sweepState)) ''s2''
       = Some \<lparr>sessionId = ''s2'', s_userId = ''bob'', messages = [msgB],
                lastActivity = 2 * hour, createdAt = hour\<rparr>"
    "map_of (userCurrentSessions (cleanupExpiredSessions (49 * hour) sweepState)) ''bob'' = Some ''s2''"
    by simp_all
  from s2 have g2: "getSessionInfo ''bob'' (cleanupExpiredSessions (49 * hour) sweepState)
      = Some (''s2'', 1, 2 * hour)"
    by (simp add: getSessionInfo_def)
  from sweepState_sessions(1) g a b s1 s0 s2 g2 show ?thesis by blast
qed

text \<open>
  C9, as the code has it. A search never rejects: \<^verbatim>\<open>searchRelevantHistory\<close> and
  \<^verbatim>\<open>searchRelevantDocuments\<close> always return a list, and with a credential present, if
  the initialization of the index fails or the similarity search of the call fails
  (the library throws, on an index that existed or on the one the call has just built),
  the list is empty.
\<close>

theorem search_errors_become_empty:
  "(\<exists>ds. fst (searchRelevantHistory e q u key l st) = Inr ds)
   \<and> (\<exists>ds. fst (searchRelevantDocuments e q u key l st) = Inr ds)
   \<and> (key = Some k \<and> k \<noteq> [] \<and> vectorStore st = None
        \<and> isl (fst (initializeVectorStoreWithKey e k st))
      \<longrightarrow> fst (searchRelevantHistory e q u key l st) = Inr []
          \<and> fst (searchRelevantDocuments e q u key l st) = Inr [])
   \<and> (key = Some k \<and> k \<noteq> [] \<and> fst (storeSearch e q (l * 2) (afterInit e k st)) = None
      \<longrightarrow> fst (searchRelevantHistory e q u key l st) = Inr [])
   \<and> (key = Some k \<and> k \<noteq> []
        \<and> fst (storeSearch e (if emptyQuery q then ''document'' else q)
                 (if emptyQuery q then l * 5 else l * 2) (afterInit e k st)) = None
      \<longrightarrow> fst (searchRelevantDocuments e q u key l st) = Inr [])"
  using searchRelevantHistory_Inr[of e q u key l st] searchRelevantDocuments_Inr[of e q u key l st]
    search_init_fails[of k st e q u l] search_own_search_fails[of k e q l st u]
  by blast

theorem search_errors_become_empty_witness:
  "''sk-key'' \<noteq> [] \<and> vectorStore initial_state = None
   \<and> fst (initializeVectorStoreWithKey searchFailingEnv ''sk-key'' initial_state) = Inr ()
   \<and> vectorStore (afterInit searchFailingEnv ''sk-key'' initial_state) = Some [sentinelDocument]
   \<and> similaritySearchWithScore searchFailingEnv [sentinelDocument] ''hello'' (5 * 2) = None
   \<and> fst (storeSearch searchFailingEnv ''hello'' (5 * 2)
             (afterInit searchFailingEnv ''sk-key'' initial_state)) = None
   \<and> fst (searchRelevantHistory searchFailingEnv ''hello'' ''alice'' (Some ''sk-key'') 5 initial_state)
       = Inr []
   \<and> fst (searchRelevantDocuments searchFailingEnv ''hello'' ''alice'' (Some ''sk-key'') 5 initial_state)
       = Inr []"
proof -
  have k: "''sk-key'' \<noteq> []" by simp
  have v: "vectorStore initial_state = None" by (simp add: initial_state_def)
  have i: "fst (initializeVectorStoreWithKey searchFailingEnv ''sk-key'' initial_state) = Inr ()"
    by (simp add: initializeVectorStoreWithKey_def createEmbeddingsWithKey_def Let_def
        searchFailingEnv_def exampleEnv_def initial_state_def)
  have a: "vectorStore (afterInit searchFailingEnv ''sk-key'' initial_state) = Some [sentinelDocument]"
    by (simp add: afterInit_def initializeVectorStoreWithKey_def createEmbeddingsWithKey_def Let_def
        searchFailingEnv_def exampleEnv_def initial_state_def)
  have f: "similaritySearchWithScore searchFailingEnv [sentinelDocument] ''hello'' (5 * 2) = None"
    by (simp add: searchFailingEnv_def)
  have s: "fst (storeSearch searchFailingEnv ''hello'' (5 * 2)
             (afterInit searchFailingEnv ''sk-key'' initial_state)) = None"
    using a f by (simp add: storeSearch_def)
  have n: "\<not> emptyQuery ''hello''" by (rule emptyQuery_hello)
  from search_errors_become_empty[of searchFailingEnv "''hello''" "''alice''" "Some ''sk-key''" 5
      initial_state "''sk-key''"] k s n
  have "fst (searchRelevantHistory searchFailingEnv ''hello'' ''alice'' (Some ''sk-key'') 5 initial_state)
       = Inr []
     \<and> fst (searchRelevantDocuments searchFailingEnv ''hello'' ''alice'' (Some ''sk-key'') 5 initial_state)
       = Inr []"
    by simp
  with k v i a f s show ?thesis by blast
qed

text \<open>
  C9 as stated (the error is surfaced to the caller) fails: with a credential and a
  failing index construction both searches return the empty list.
\<close>

theorem search_error_swallowed_counterexample:
  "vectorStore initial_state = None
   \<and> fst (initializeVectorStoreWithKey failingEnv ''sk-key'' initial_state) = Inl ProviderError
   \<and> fst (searchRelevantHistory failingEnv ''hello'' ''alice'' (Some ''sk-key'') 5 initial_state) = Inr []
   \<and> fst (searchRelevantDocuments failingEnv ''hello'' ''alice'' (Some ''sk-key'') 5 initial_state) = Inr []"
  by (simp add: searchRelevantHistory_def searchRelevantDocuments_def initializeVectorStoreWithKey_def
      createEmbeddingsWithKey_def Let_def failingEnv_def initial_state_def)

text \<open>
  C10, as the code has it. For every \<^verbatim>\<open>searchRelevantHistory\<close> call whose query is empty or
  white space only, the result is the empty list, no error is raised, no similarity
  search is performed and the sessions are unchanged. The whole state is unchanged when
  the index exists already or no credential is given; with a credential and no index
  yet, the call has first initialized the index.
\<close>

theorem empty_query_returns_nothing:
  assumes "emptyQuery q"
  shows "fst (searchRelevantHistory e q u key l st) = Inr []
       \<and> filter isSimilaritySearch (externalCalls (snd (searchRelevantHistory e q u key l st)))
           = filter isSimilaritySearch (externalCalls st)
       \<and> conversationSessions (snd (searchRelevantHistory e q u key l st)) = conversationSessions st
       \<and> userCurrentSessions (snd (searchRelevantHistory e q u key l st)) = userCurrentSessions st
       \<and> (vectorStore st \<noteq> None \<or> key = None \<or> key = Some []
            \<longrightarrow> snd (searchRelevantHistory e q u key l st) = st)
       \<and> (vectorStore st = None \<and> key = Some k \<and> k \<noteq> []
            \<longrightarrow> snd (searchRelevantHistory e q u key l st) = snd (initializeVectorStoreWithKey e k st))"
proof (intro conjI)
  show "fst (searchRelevantHistory e q u key l st) = Inr []"
    using assms
    by (simp add: searchRelevantHistory_def Let_def split_beta split: option.split sum.split)
  show "filter isSimilaritySearch (externalCalls (snd (searchRelevantHistory e q u key l st)))
           = filter isSimilaritySearch (externalCalls st)"
    using assms
    by (simp add: searchRelevantHistory_def Let_def split_beta initializeVectorStoreWithKey_searches
        split: option.split sum.split)
  show "conversationSessions (snd (searchRelevantHistory e q u key l st)) = conversationSessions st"
    by (rule searchRelevantHistory_frame)
  show "userCurrentSessions (snd (searchRelevantHistory e q u key l st)) = userCurrentSessions st"
    by (rule searchRelevantHistory_frame)
  show "vectorStore st \<noteq> None \<or> key = None \<or> key = Some []
            \<longrightarrow> snd (searchRelevantHistory e q u key l st) = st"
    using assms
    by (auto simp: searchRelevantHistory_def Let_def split: option.split)
  show "vectorStore st = None \<and> key = Some k \<and> k \<noteq> []
            \<longrightarrow> snd (searchRelevantHistory e q u key l st) = snd (initializeVectorStoreWithKey e k st)"
    using assms
    by (simp add: searchRelevantHistory_def Let_def split_beta split: sum.split)
qed

theorem empty_query_returns_nothing_witness:
  "emptyQuery ''  '' \<and> vectorStore exampleStore \<noteq> None
   \<and> fst (searchRelevantHistory exampleEnv ''  '' ''alice'' (Some ''sk-key'') 5 exampleStore) = Inr []
   \<and> snd (searchRelevantHistory exampleEnv ''  '' ''alice'' (Some ''sk-key'') 5 exampleStore) = exampleStore"
proof -
  have v: "vectorStore exampleStore \<noteq> None" by (simp add: exampleStore_def)
  from empty_query_returns_nothing[OF emptyQuery_blank, of exampleEnv "''alice''" "Some ''sk-key''" 5 exampleStore] v
  have "fst (searchRelevantHistory exampleEnv ''  '' ''alice'' (Some ''sk-key'') 5 exampleStore) = Inr []
     \<and> snd (searchRelevantHistory exampleEnv ''  '' ''alice'' (Some ''sk-key'') 5 exampleStore) = exampleStore"
    by blast
  with v emptyQuery_blank show ?thesis by simp
qed

text \<open>
  C10 as stated (the vector index is left unchanged) fails: a blank query with a
  credential on a service without index creates the index.
\<close>

theorem empty_query_builds_index_counterexample:
  "emptyQuery ''  '' \<and> vectorStore initial_state = None
   \<and> fst (searchRelevantHistory exampleEnv ''  '' ''alice'' (Some ''sk-key'') 5 initial_state) = Inr []
   \<and> vectorStore (snd (searchRelevantHistory exampleEnv ''  '' ''alice'' (Some ''sk-key'') 5 initial_state))
       = Some [sentinelDocument]
   \<and> externalCalls (snd (searchRelevantHistory exampleEnv ''  '' ''alice'' (Some ''sk-key'') 5 initial_state))
       = [FromTexts]"
  by (simp add: emptyQuery_blank searchRelevantHistory_def initializeVectorStoreWithKey_def
      createEmbeddingsWithKey_def Let_def exampleEnv_def initial_state_def)


end
